theory Spec2Isabelle
  imports Main "HOL-Library.Log_Nat" "HOL-Library.Multiset"
begin

section \<open>JavaScript numbers\<close>

text \<open>
  Every number of the source is an IEEE 754 binary64 value.  The functions modelled here
  meet only finite values and NaN: they divide by a non-zero constant or by a count that
  was compared with 0 first, and all magnitudes stay far inside the normal range.  A finite
  value is the rational it denotes; \<open>fl\<close> rounds a rational to the nearest value with a
  53 bit significand, ties to the even significand, which is what every arithmetic
  operator of the language does with its exact result.  The exponent is not bounded, so
  \<open>fl\<close> agrees with binary64 on the normal range.  The two zeros are not distinguished.
  Counts and time values enter as integers: a Number holds every integer up to \<open>2^53\<close>
  exactly, and a time value is at most \<open>8.64 * 10^15\<close> in magnitude.
\<close>

datatype jsnum = NaN | Num rat

definition rne :: "rat \<Rightarrow> int" where
  \<comment> \<open>nearest integer, a tie goes to the even one\<close>
  "rne y = (let f = \<lfloor>y\<rfloor>; r = y - of_int f in
            if r < 1 / 2 then f else if 1 / 2 < r then f + 1
            else if even f then f else f + 1)"

definition ilog2 :: "rat \<Rightarrow> int" where
  \<comment> \<open>the binary exponent of a positive rational: \<open>2 powi e \<le> x < 2 powi (e + 1)\<close>\<close>
  "ilog2 x = (if 1 \<le> x then bitlen \<lfloor>x\<rfloor> - 1 else - bitlen (\<lceil>1 / x\<rceil> - 1))"

definition fl :: "rat \<Rightarrow> rat" where
  "fl x = (if x = 0 then 0
           else let u = 2 powi (ilog2 \<bar>x\<bar> - 52)
                in sgn x * of_int (rne (\<bar>x\<bar> / u)) * u)"

definition js_arith :: "(rat \<Rightarrow> rat \<Rightarrow> rat) \<Rightarrow> jsnum \<Rightarrow> jsnum \<Rightarrow> jsnum" where
  \<comment> \<open>a binary operator: NaN is contagious, the exact result is rounded\<close>
  "js_arith f a b = (case (a, b) of (Num x, Num y) \<Rightarrow> Num (fl (f x y)) | _ \<Rightarrow> NaN)"

definition js_le :: "jsnum \<Rightarrow> jsnum \<Rightarrow> bool" where
  \<comment> \<open>\<open>a <= b\<close>: false as soon as one side is NaN\<close>
  "js_le a b = (case (a, b) of (Num x, Num y) \<Rightarrow> x \<le> y | _ \<Rightarrow> False)"

definition round_half_up :: "rat \<Rightarrow> int" where
  \<comment> \<open>\<open>Math.round\<close> on a finite value: the nearest integer, a tie goes up\<close>
  "round_half_up x = \<lfloor>x + 1 / 2\<rfloor>"

definition Math_round :: "jsnum \<Rightarrow> jsnum" where
  "Math_round a = (case a of NaN \<Rightarrow> NaN | Num x \<Rightarrow> Num (of_int (round_half_up x)))"

definition Math_max :: "jsnum \<Rightarrow> jsnum \<Rightarrow> jsnum" where
  "Math_max a b = (case (a, b) of (Num x, Num y) \<Rightarrow> Num (max x y) | _ \<Rightarrow> NaN)"

section \<open>helpers.js\<close>

subsection \<open>pct\<close>

text \<open>
  \<^verbatim>\<open>total === 0 ? 0 : Math.round((attended / total) * 100)\<close>.  The callers pass counts,
  so the arguments are naturals; the quotient and the product are each rounded.
\<close>

definition pct :: "nat \<Rightarrow> nat \<Rightarrow> int" where
  "pct attended total' =
     (if total' = 0 then 0
      else round_half_up (fl (fl (of_nat attended / of_nat total') * 100)))"

subsection \<open>attendanceStatus\<close>

record badge =
  label :: string
  color :: string

definition attendanceStatus :: "rat \<Rightarrow> badge" where
  "attendanceStatus p =
     (if 80 \<le> p then \<lparr>label = ''Good Standing'', color = ''#00D68F''\<rparr>
      else if 60 \<le> p then \<lparr>label = ''At Risk'', color = ''#FFB800''\<rparr>
      else \<lparr>label = ''Critical'', color = ''#FF4D6D''\<rparr>)"

subsection \<open>getScanStatus\<close>

text \<open>
  \<^verbatim>\<open>new Date(s)\<close> is the runtime's; the model takes it as the parameter \<open>Date\<close>, which
  gives the time value of a string in milliseconds, or \<open>None\<close> for an Invalid Date, whose
  time value is NaN.  The start is parsed from the template string of the source.
\<close>

record scan_status =
  status :: string
  minutesLate :: jsnum

definition time_value :: "int option \<Rightarrow> jsnum" where
  "time_value d = (case d of None \<Rightarrow> NaN | Some v \<Rightarrow> Num (of_int v))"

definition getScanStatus ::
  "(string \<Rightarrow> int option) \<Rightarrow> string \<Rightarrow> string \<Rightarrow> string \<Rightarrow> scan_status" where
  "getScanStatus Date scanTime sessionDate sessionStartTime =
     (let start = time_value (Date (sessionDate @ ''T'' @ sessionStartTime @ '':00''));
          diff = js_arith (/) (js_arith (-) (time_value (Date scanTime)) start) (Num 60000)
      in \<lparr>status = (if js_le diff (Num 10) then ''present'' else ''late''),
          minutesLate = Math_max (Num 0) (Math_round diff)\<rparr>)"

subsection \<open>studentCourseStats\<close>

text \<open>
  A session object is a row of the sessions table; the reads that embed the scans
  (\<^verbatim>\<open>select('*, scans(*)')\<close>) add the array \<open>scans\<close>, which the source guards with
  \<^verbatim>\<open>session.scans || []\<close>.
\<close>

record scan_row =
  sc_id :: nat
  sc_session_id :: string
  sc_student_no :: string
  sc_surname_initials :: string
  sc_status :: string
  sc_minutes_late :: int
  sc_lat :: "rat option"
  sc_lng :: "rat option"
  sc_scanned_at :: int

record session_row =
  ss_id :: string
  ss_course_id :: string
  ss_lecturer_id :: string
  ss_date :: string
  ss_start_time :: string
  ss_room :: string
  ss_lat :: "rat option"
  ss_lng :: "rat option"
  ss_status :: string

record session = session_row +
  scans :: "scan_row list option"

definition or_empty :: "'a list option \<Rightarrow> 'a list" where
  \<comment> \<open>\<^verbatim>\<open>xs || []\<close>\<close>
  "or_empty xs = (case xs of None \<Rightarrow> [] | Some ys \<Rightarrow> ys)"

definition find_scan :: "string \<Rightarrow> session \<Rightarrow> scan_row option" where
  "find_scan studentNo s = find (\<lambda>sc. sc_student_no sc = studentNo) (or_empty (scans s))"

record stats =
  st_total :: nat
  st_present :: nat
  st_late :: nat
  st_absent :: nat

definition count_session :: "string \<Rightarrow> session \<Rightarrow> nat \<times> nat \<times> nat \<Rightarrow> nat \<times> nat \<times> nat" where
  \<comment> \<open>the body of the \<open>forEach\<close>, on the three counters\<close>
  "count_session studentNo s acc =
     (case acc of (present, late, absent) \<Rightarrow>
        (case find_scan studentNo s of
           None \<Rightarrow> (present, late, absent + 1)
         | Some scan \<Rightarrow>
             if sc_status scan = ''late'' then (present, late + 1, absent)
             else (present + 1, late, absent)))"

definition studentCourseStats :: "string \<Rightarrow> string \<Rightarrow> session list \<Rightarrow> stats" where
  "studentCourseStats studentNo courseId sessions =
     (let cs = filter (\<lambda>s. ss_course_id s = courseId) sessions
      in case fold (count_session studentNo) cs (0, 0, 0) of
           (present, late, absent) \<Rightarrow>
             \<lparr>st_total = length cs, st_present = present, st_late = late, st_absent = absent\<rparr>)"

section \<open>excel.js\<close>

text \<open>
  The tail of a data row of \<open>exportAttendanceExcel\<close>, from the three counters the row's
  loop over the course's sessions has filled: total, percentage, status and the at-risk
  flag.  The flag's dash is the three bytes of U+2014.
\<close>

record export_tail =
  x_total :: nat
  x_attPct :: int
  x_status :: string
  x_atRisk :: string

definition yes_intervention :: string where
  "yes_intervention = ''YES '' @ [CHR 0xE2, CHR 0x80, CHR 0x94] @ '' INTERVENTION NEEDED''"

definition export_row_tail :: "nat \<Rightarrow> nat \<Rightarrow> nat \<Rightarrow> export_tail" where
  "export_row_tail present late total' =
     (let attPct = (if total' = 0 then 0
                    else round_half_up (fl (fl (of_nat (present + late) / of_nat total') * 100)));
          status = (if 80 \<le> attPct then ''Good Standing''
                    else if 60 \<le> attPct then ''At Risk'' else ''Critical'');
          atRisk = (if attPct < 80 then yes_intervention else ''No'')
      in \<lparr>x_total = total', x_attPct = attPct, x_status = status, x_atRisk = atRisk\<rparr>)"

section \<open>supabase-schema.sql and supabase.js\<close>

subsection \<open>Tables\<close>

text \<open>
  The remote store, as the schema declares it: one list of rows per table, in the order
  in which a read without an \<open>order\<close> clause yields them (rows are appended by inserts and
  updated in place).  \<open>online\<close> tells whether requests reach the store, \<open>db_now\<close> is the
  server's \<open>now()\<close>, \<open>next_scan_id\<close> the identity sequence of \<open>scans.id\<close>.  The
  \<open>created_at\<close> and \<open>updated_at\<close> columns and the admin table are left out: no operation
  modelled here reads them.
\<close>

record lecturer_row =
  l_id :: string
  l_name :: string
  l_email :: string
  l_department :: string
  l_passwords :: "string list"

record course_row =
  c_id :: string
  c_lecturer_id :: string
  c_code :: string
  c_name :: string
  c_department :: string
  c_year :: int
  c_semester :: string
  c_total_planned_classes :: int
  c_room :: string

record student_row =
  stu_id :: string
  stu_student_no :: string
  stu_surname_initials :: string

record enrolment_row =
  en_student_id :: string
  en_course_id :: string

record store =
  online :: bool
  db_now :: int
  next_scan_id :: nat
  tbl_lecturers :: "lecturer_row list"
  tbl_courses :: "course_row list"
  tbl_students :: "student_row list"
  tbl_enrolments :: "enrolment_row list"
  tbl_sessions :: "session_row list"
  tbl_scans :: "scan_row list"

text \<open>
  An error object of the client: a rejection by the store carries the SQLSTATE (or
  PostgREST) code in \<open>code\<close>; a request that does not reach the store has none.
\<close>

datatype error = FetchError | PostgrestError string

definition code :: "error \<Rightarrow> string option" where
  "code e = (case e of FetchError \<Rightarrow> None | PostgrestError c \<Rightarrow> Some c)"

definition request :: "store \<Rightarrow> error + 'a \<Rightarrow> error + 'a" where
  \<comment> \<open>a read: \<open>handle\<close> throws the error, or returns the data\<close>
  "request st r = (if online st then r else Inl FetchError)"

definition mutation :: "store \<Rightarrow> (error + 'a) \<times> store \<Rightarrow> (error + 'a) \<times> store" where
  \<comment> \<open>a write: the answer and the store after it\<close>
  "mutation st r = (if online st then r else (Inl FetchError, st))"

subsection \<open>Sessions\<close>

definition embed_scans :: "store \<Rightarrow> session_row \<Rightarrow> session" where
  \<comment> \<open>\<^verbatim>\<open>select('*, scans(*)')\<close>: the row with the scans that reference it, no order asked\<close>
  "embed_scans st r =
     \<lparr>ss_id = ss_id r, ss_course_id = ss_course_id r, ss_lecturer_id = ss_lecturer_id r,
      ss_date = ss_date r, ss_start_time = ss_start_time r, ss_room = ss_room r,
      ss_lat = ss_lat r, ss_lng = ss_lng r, ss_status = ss_status r,
      scans = Some (filter (\<lambda>sc. sc_session_id sc = ss_id r) (tbl_scans st))\<rparr>"

definition getSession :: "store \<Rightarrow> string \<Rightarrow> error + session option" where
  \<comment> \<open>\<open>maybeSingle\<close>: no row is \<open>null\<close>, several rows are an error\<close>
  "getSession st sessionId = request st
     (case filter (\<lambda>r. ss_id r = sessionId) (tbl_sessions st) of
        [] \<Rightarrow> Inr None
      | [r] \<Rightarrow> Inr (Some (embed_scans st r))
      | _ \<Rightarrow> Inl (PostgrestError ''PGRST116''))"

definition has_key :: "('r \<Rightarrow> 'k) \<Rightarrow> 'k \<Rightarrow> 'r list \<Rightarrow> bool" where
  "has_key key k rows = (k \<in> set (map key rows))"

definition createSession :: "store \<Rightarrow> session_row \<Rightarrow> (error + session_row) \<times> store" where
  \<comment> \<open>the insert sets \<open>status: 'active'\<close>; primary key, then the two foreign keys\<close>
  "createSession st p = mutation st
     (let r = p\<lparr>ss_status := ''active''\<rparr> in
      if has_key ss_id (ss_id r) (tbl_sessions st) then (Inl (PostgrestError ''23505''), st)
      else if \<not> has_key c_id (ss_course_id r) (tbl_courses st)
              \<or> \<not> has_key l_id (ss_lecturer_id r) (tbl_lecturers st)
           then (Inl (PostgrestError ''23503''), st)
      else (Inr r, st\<lparr>tbl_sessions := tbl_sessions st @ [r]\<rparr>))"

definition closeSession :: "store \<Rightarrow> string \<Rightarrow> (error + unit) \<times> store" where
  \<comment> \<open>\<^verbatim>\<open>update({ status: 'closed' }).eq('id', sessionId)\<close>: no matching row is no error\<close>
  "closeSession st sessionId = mutation st
     (Inr (), st\<lparr>tbl_sessions :=
        map (\<lambda>r. if ss_id r = sessionId then r\<lparr>ss_status := ''closed''\<rparr> else r)
          (tbl_sessions st)\<rparr>)"

subsection \<open>Scans\<close>

record scan_insert =
  i_session_id :: string
  i_student_no :: string
  i_surname_initials :: string
  i_status :: string
  i_minutes_late :: jsnum
  i_lat :: rat
  i_lng :: rat

definition scan_key :: "scan_row \<Rightarrow> string \<times> string" where
  \<comment> \<open>\<^verbatim>\<open>unique (session_id, student_no)\<close>\<close>
  "scan_key sc = (sc_session_id sc, sc_student_no sc)"

definition recordScan :: "store \<Rightarrow> scan_insert \<Rightarrow> (error + scan_row) \<times> store" where
  \<comment> \<open>NaN is sent as \<open>null\<close> (not-null violation 23502), a fraction is no integer (22P02);
      the identity value is drawn before the unique and the foreign key are checked\<close>
  "recordScan st p = mutation st
     (case i_minutes_late p of
        NaN \<Rightarrow> (Inl (PostgrestError ''23502''), st\<lparr>next_scan_id := next_scan_id st + 1\<rparr>)
      | Num m \<Rightarrow>
          if of_int \<lfloor>m\<rfloor> \<noteq> m then (Inl (PostgrestError ''22P02''), st)
          else let r = \<lparr>sc_id = next_scan_id st, sc_session_id = i_session_id p,
                         sc_student_no = i_student_no p,
                         sc_surname_initials = i_surname_initials p, sc_status = i_status p,
                         sc_minutes_late = \<lfloor>m\<rfloor>, sc_lat = Some (i_lat p),
                         sc_lng = Some (i_lng p), sc_scanned_at = db_now st\<rparr>;
                   st1 = st\<lparr>next_scan_id := next_scan_id st + 1\<rparr>
               in if has_key scan_key (scan_key r) (tbl_scans st)
                  then (Inl (PostgrestError ''23505''), st1)
                  else if \<not> has_key ss_id (sc_session_id r) (tbl_sessions st)
                  then (Inl (PostgrestError ''23503''), st1)
                  else (Inr r, st1\<lparr>tbl_scans := tbl_scans st @ [r]\<rparr>))"

definition getScansForSession :: "store \<Rightarrow> string \<Rightarrow> error + scan_row list" where
  \<comment> \<open>\<^verbatim>\<open>.order('scanned_at', { ascending: false })\<close>\<close>
  "getScansForSession st sessionId = request st
     (Inr (rev (sort_key sc_scanned_at
        (filter (\<lambda>sc. sc_session_id sc = sessionId) (tbl_scans st)))))"

subsection \<open>Courses and students\<close>

definition getCourses :: "store \<Rightarrow> error + course_row list" where
  \<comment> \<open>the order by code is left out: the check-in view only searches the list\<close>
  "getCourses st = request st (Inr (tbl_courses st))"

definition getStudentsForCourse :: "store \<Rightarrow> string \<Rightarrow> error + student_row list" where
  \<comment> \<open>\<^verbatim>\<open>select('students(*)')\<close> on the enrolments of the course; the foreign key gives
      every enrolment its student\<close>
  "getStudentsForCourse st courseId = request st
     (Inr (List.map_filter
        (\<lambda>e. find (\<lambda>s. stu_id s = en_student_id e) (tbl_students st))
        (filter (\<lambda>e. en_course_id e = courseId) (tbl_enrolments st))))"

definition upsert_student :: "store \<Rightarrow> student_row \<Rightarrow> (error + unit) \<times> store" where
  \<comment> \<open>\<^verbatim>\<open>onConflict: 'student_no', ignoreDuplicates: false\<close>: insert, or on a row with this
      student number set every column sent (id included: it must stay unique, and must
      not change under an enrolment that references it)\<close>
  "upsert_student st r = mutation st
     (case find (\<lambda>x. stu_student_no x = stu_student_no r) (tbl_students st) of
        None \<Rightarrow>
          if has_key stu_id (stu_id r) (tbl_students st)
          then (Inl (PostgrestError ''23505''), st)
          else (Inr (), st\<lparr>tbl_students := tbl_students st @ [r]\<rparr>)
      | Some old \<Rightarrow>
          if stu_id r \<noteq> stu_id old \<and> has_key stu_id (stu_id r) (tbl_students st)
          then (Inl (PostgrestError ''23505''), st)
          else if stu_id r \<noteq> stu_id old
                  \<and> has_key en_student_id (stu_id old) (tbl_enrolments st)
          then (Inl (PostgrestError ''23503''), st)
          else (Inr (), st\<lparr>tbl_students :=
                  map (\<lambda>x. if stu_student_no x = stu_student_no r then r else x)
                    (tbl_students st)\<rparr>))"

definition select_student_id :: "store \<Rightarrow> string \<Rightarrow> string option" where
  \<comment> \<open>\<^verbatim>\<open>select('id').eq('student_no', studentNo).single()\<close>, only \<open>data\<close> is read:
      \<open>null\<close> unless exactly one row matches\<close>
  "select_student_id st studentNo =
     (if online st
      then (case filter (\<lambda>x. stu_student_no x = studentNo) (tbl_students st) of
              [x] \<Rightarrow> Some (stu_id x) | _ \<Rightarrow> None)
      else None)"

definition enrolment_key :: "enrolment_row \<Rightarrow> string \<times> string" where
  "enrolment_key e = (en_student_id e, en_course_id e)"

definition upsert_enrolment :: "store \<Rightarrow> enrolment_row \<Rightarrow> (error + unit) \<times> store" where
  \<comment> \<open>\<^verbatim>\<open>onConflict: 'student_id,course_id', ignoreDuplicates: true\<close>\<close>
  "upsert_enrolment st e = mutation st
     (if has_key enrolment_key (enrolment_key e) (tbl_enrolments st) then (Inr (), st)
      else if \<not> has_key stu_id (en_student_id e) (tbl_students st)
              \<or> \<not> has_key c_id (en_course_id e) (tbl_courses st)
           then (Inl (PostgrestError ''23503''), st)
      else (Inr (), st\<lparr>tbl_enrolments := tbl_enrolments st @ [e]\<rparr>))"

definition upsertStudentAndEnrol ::
  "store \<Rightarrow> string \<Rightarrow> string \<Rightarrow> string \<Rightarrow> (error + student_row) \<times> store" where
  "upsertStudentAndEnrol st studentNo surnameInitials courseId =
     (let studentId = ''S_'' @ studentNo in
      case upsert_student st \<lparr>stu_id = studentId, stu_student_no = studentNo,
                               stu_surname_initials = surnameInitials\<rparr> of
        (Inl se, st1) \<Rightarrow> (Inl se, st1)
      | (Inr _, st1) \<Rightarrow>
          (let realId = (case select_student_id st1 studentNo of
                           None \<Rightarrow> studentId
                         | Some i \<Rightarrow> if i = [] then studentId else i);
               done = Inr \<lparr>stu_id = realId, stu_student_no = studentNo,
                            stu_surname_initials = surnameInitials\<rparr>
           in (case upsert_enrolment st1 \<lparr>en_student_id = realId, en_course_id = courseId\<rparr> of
                 (Inl ee, st2) \<Rightarrow>
                   if code ee \<noteq> Some ''23505'' then (Inl ee, st2) else (done, st2)
               | (Inr _, st2) \<Rightarrow> (done, st2))))"

subsection \<open>Runs of the data layer\<close>

text \<open>
  The writes of the session, scan and roster engines, and what the environment does
  between them (the connection comes and goes, the server clock moves).  A run applies a
  list of them from left to right; each leaves the store it produces, also when it is
  rejected.
\<close>

datatype op =
    CreateSession session_row
  | CloseSession string
  | RecordScan scan_insert
  | UpsertStudentAndEnrol string string string
  | Environment bool int

fun apply_op :: "op \<Rightarrow> store \<Rightarrow> store" where
  "apply_op (CreateSession p) st = snd (createSession st p)"
| "apply_op (CloseSession sid) st = snd (closeSession st sid)"
| "apply_op (RecordScan p) st = snd (recordScan st p)"
| "apply_op (UpsertStudentAndEnrol studentNo surnameInitials courseId) st =
     snd (upsertStudentAndEnrol st studentNo surnameInitials courseId)"
| "apply_op (Environment up t) st = st\<lparr>online := up, db_now := t\<rparr>"

definition run :: "op list \<Rightarrow> store \<Rightarrow> store" where
  "run ops st = fold apply_op ops st"

definition scans_unique :: "store \<Rightarrow> bool" where
  \<comment> \<open>at most one scan row for a session and a student number\<close>
  "scans_unique st = distinct (map scan_key (tbl_scans st))"

definition student_ids_derived :: "store \<Rightarrow> bool" where
  \<comment> \<open>every student row has the id the roster upsert gives it\<close>
  "student_ids_derived st =
     list_all (\<lambda>x. stu_id x = ''S_'' @ stu_student_no x) (tbl_students st)"

definition close_row :: "string \<Rightarrow> session_row \<Rightarrow> session_row" where
  "close_row sid r = (if ss_id r = sid then r\<lparr>ss_status := ''closed''\<rparr> else r)"

definition closed_or_absent :: "string \<Rightarrow> store \<Rightarrow> bool" where
  \<comment> \<open>no row with this id, or only closed ones\<close>
  "closed_or_absent sid st =
     list_all (\<lambda>r. ss_status r = ''closed'') (filter (\<lambda>r. ss_id r = sid) (tbl_sessions st))"

definition no_active_session :: "string \<Rightarrow> store \<Rightarrow> bool" where
  \<comment> \<open>no row with this id is active\<close>
  "no_active_session sid st =
     (filter (\<lambda>r. ss_id r = sid \<and> ss_status r = ''active'') (tbl_sessions st) = [])"

section \<open>The views\<close>

subsection \<open>LecturerDashboard.endSession\<close>

definition endSession :: "string option \<Rightarrow> store \<Rightarrow> store" where
  \<comment> \<open>\<^verbatim>\<open>if (activeSessionId) { try { await closeSession(activeSessionId); } catch {} }\<close>\<close>
  "endSession activeSessionId st =
     (case activeSessionId of
        None \<Rightarrow> st
      | Some sid \<Rightarrow> if sid = [] then st else snd (closeSession st sid))"

subsection \<open>StudentScanView\<close>

text \<open>
  The state of the component: the session loaded when it mounted, the step shown, the
  text of the input, the result card (a scan, and whether it carries \<open>alreadyDone\<close>) and
  the error line.
\<close>

record view =
  v_session :: "session option"
  v_step :: string
  v_studentNo :: string
  v_result :: "(scan_row \<times> bool) option"
  v_err :: string

definition initial_view :: view where
  "initial_view = \<lparr>v_session = None, v_step = ''loading'', v_studentNo = [],
                    v_result = None, v_err = []\<rparr>"

definition load_session :: "string option \<Rightarrow> store \<Rightarrow> view \<Rightarrow> view" where
  \<comment> \<open>the effect run on mount: every failure ends in \<open>no_session\<close>\<close>
  "load_session sessionId st v =
     (case sessionId of
        None \<Rightarrow> v\<lparr>v_step := ''no_session''\<rparr>
      | Some sid \<Rightarrow>
          if sid = [] then v\<lparr>v_step := ''no_session''\<rparr>
          else (case getSession st sid of
                  Inl e \<Rightarrow> v\<lparr>v_step := ''no_session''\<rparr>
                | Inr None \<Rightarrow> v\<lparr>v_step := ''no_session''\<rparr>
                | Inr (Some s) \<Rightarrow>
                    if ss_status s \<noteq> ''active'' then v\<lparr>v_step := ''no_session''\<rparr>
                    else (case getCourses st of
                            Inl e \<Rightarrow> v\<lparr>v_session := Some s, v_step := ''no_session''\<rparr>
                          | Inr cs \<Rightarrow> v\<lparr>v_session := Some s, v_step := ''enter''\<rparr>)))"

definition is_space :: "char \<Rightarrow> bool" where
  \<comment> \<open>the white space and line terminators of one byte\<close>
  "is_space c = (c \<in> set [CHR 0x09, CHR 0x0A, CHR 0x0B, CHR 0x0C, CHR 0x0D, CHR '' ''])"

definition trim :: "string \<Rightarrow> string" where
  "trim s = rev (dropWhile is_space (rev (dropWhile is_space s)))"

definition scan_failed :: "error \<Rightarrow> view \<Rightarrow> view" where
  \<comment> \<open>the \<open>catch\<close> of \<open>doLog\<close>\<close>
  "scan_failed e v =
     (if code e = Some ''23505''
      then v\<lparr>v_err := ''You have already scanned in for this session.'', v_step := ''enter''\<rparr>
      else v\<lparr>v_err := ''Failed to record. Try again.'', v_step := ''enter''\<rparr>)"

definition doLog ::
  "(string \<Rightarrow> int option) \<Rightarrow> string \<Rightarrow> string \<Rightarrow> string \<Rightarrow> rat \<times> rat
     \<Rightarrow> view \<Rightarrow> store \<Rightarrow> view \<times> store" where
  \<comment> \<open>\<open>now\<close> is \<^verbatim>\<open>new Date().toISOString()\<close>; the view is in step \<open>enter\<close> when the handler
      runs, so its session is set (a missing one would throw into the \<open>catch\<close>)\<close>
  "doLog Date now sessionId sNo pos v st =
     (case v_session v of
        None \<Rightarrow> (v\<lparr>v_err := ''Failed to record. Try again.'', v_step := ''enter''\<rparr>, st)
      | Some s \<Rightarrow>
          (let r = getScanStatus Date now (ss_date s) (ss_start_time s) in
           (case getStudentsForCourse st (ss_course_id s) of
              Inl e \<Rightarrow> (scan_failed e v, st)
            | Inr allStudents \<Rightarrow>
                (let name = (case find (\<lambda>x. stu_student_no x = sNo) allStudents of
                               None \<Rightarrow> sNo
                             | Some x \<Rightarrow> if stu_surname_initials x = [] then sNo
                                         else stu_surname_initials x)
                 in (case recordScan st
                            \<lparr>i_session_id = sessionId, i_student_no = sNo,
                             i_surname_initials = name, i_status = status r,
                             i_minutes_late = minutesLate r, i_lat = fst pos,
                             i_lng = snd pos\<rparr> of
                       (Inl e, st') \<Rightarrow> (scan_failed e v, st')
                     | (Inr scan, st') \<Rightarrow>
                         (v\<lparr>v_result := Some (scan, False), v_step := ''success''\<rparr>, st'))))))"

definition handleScan ::
  "(string \<Rightarrow> int option) \<Rightarrow> string \<Rightarrow> (rat \<times> rat) option \<Rightarrow> string
     \<Rightarrow> view \<Rightarrow> store \<Rightarrow> view \<times> store" where
  \<comment> \<open>\<open>position\<close> is what the geolocation call gives; without it the fixed coordinate\<close>
  "handleScan Date now position sessionId v0 st =
     (let v = v0\<lparr>v_err := []\<rparr>; sNo = trim (v_studentNo v) in
      if sNo = [] then (v\<lparr>v_err := ''Please enter your student number''\<rparr>, st)
      else case find (\<lambda>sc. sc_student_no sc = sNo)
                  (case v_session v of None \<Rightarrow> [] | Some s \<Rightarrow> or_empty (scans s)) of
             Some existing \<Rightarrow> (v\<lparr>v_result := Some (existing, True), v_step := ''already''\<rparr>, st)
           | None \<Rightarrow>
               doLog Date now sessionId sNo
                 (case position of None \<Rightarrow> (- 239045 / 10000, 294688 / 10000) | Some p \<Rightarrow> p)
                 (v\<lparr>v_step := ''verifying''\<rparr>) st)"

definition type_studentNo :: "string \<Rightarrow> view \<Rightarrow> view" where
  \<comment> \<open>the input's \<open>onChange\<close>\<close>
  "type_studentNo s v = v\<lparr>v_studentNo := s\<rparr>"

definition click_done :: "view \<Rightarrow> view" where
  \<comment> \<open>the button of the success card\<close>
  "click_done v = v\<lparr>v_step := ''enter'', v_studentNo := [], v_result := None\<rparr>"

section \<open>Vocabulary of the statements\<close>

definition pct_spec :: "nat \<Rightarrow> nat \<Rightarrow> nat \<Rightarrow> int" where
  \<comment> \<open>the percentage as the specification writes it, in exact arithmetic\<close>
  "pct_spec present late total' =
     round_half_up (100 * of_nat (present + late) / of_nat (max total' 1))"

definition elapsed :: "int \<Rightarrow> int \<Rightarrow> rat" where
  \<comment> \<open>the exact minutes from the start to the scan, both in milliseconds\<close>
  "elapsed scan start = of_int (scan - start) / 60000"

definition js_diff :: "int \<Rightarrow> int \<Rightarrow> rat" where
  \<comment> \<open>the value of \<open>diff\<close> in \<open>getScanStatus\<close> for two valid dates\<close>
  "js_diff s t = fl (fl (of_int s - of_int t) / 60000)"

definition student_scans :: "string \<Rightarrow> session \<Rightarrow> scan_row list" where
  \<comment> \<open>the scans of a session that carry the student number, in the order of the array\<close>
  "student_scans studentNo s =
     filter (\<lambda>sc. sc_student_no sc = studentNo) (or_empty (scans s))"

definition is_absent :: "string \<Rightarrow> session \<Rightarrow> bool" where
  \<comment> \<open>no scan of the session carries the student number\<close>
  "is_absent studentNo s = (studentNo \<notin> set (map sc_student_no (or_empty (scans s))))"

definition is_late :: "string \<Rightarrow> session \<Rightarrow> bool" where
  \<comment> \<open>the student has a scan in the session, and the first one has status late\<close>
  "is_late studentNo s =
     (case student_scans studentNo s of [] \<Rightarrow> False | sc # _ \<Rightarrow> sc_status sc = ''late'')"

definition is_present :: "string \<Rightarrow> session \<Rightarrow> bool" where
  \<comment> \<open>the student has a scan in the session, and the first one has another status\<close>
  "is_present studentNo s =
     (case student_scans studentNo s of [] \<Rightarrow> False | sc # _ \<Rightarrow> sc_status sc \<noteq> ''late'')"

definition new_student :: "string \<Rightarrow> string \<Rightarrow> student_row" where
  "new_student studentNo surnameInitials =
     \<lparr>stu_id = ''S_'' @ studentNo, stu_student_no = studentNo,
      stu_surname_initials = surnameInitials\<rparr>"

definition real_id :: "store \<Rightarrow> string \<Rightarrow> string" where
  "real_id st studentNo =
     (case select_student_id st studentNo of
        None \<Rightarrow> ''S_'' @ studentNo
      | Some i \<Rightarrow> if i = [] then ''S_'' @ studentNo else i)"

definition rename :: "string \<Rightarrow> string \<Rightarrow> student_row \<Rightarrow> student_row" where
  "rename studentNo surnameInitials x =
     (if stu_student_no x = studentNo then x\<lparr>stu_surname_initials := surnameInitials\<rparr> else x)"

section \<open>Sample data\<close>

definition sample_Date :: "string \<Rightarrow> int option" where
  \<comment> \<open>the time values of five strings, for a device two hours ahead of UTC\<close>
  "sample_Date = map_of
     [(''2024-03-04T06:58:00.000Z'', 1709535480000),
      (''2024-03-04T07:05:00.000Z'', 1709535900000),
      (''2024-03-04T07:14:00.000Z'', 1709536440000),
      (''2024-03-04T07:20:00.000Z'', 1709536800000),
      (''2024-03-04T09:00:00'', 1709535600000)]"

definition sample_scan :: "nat \<Rightarrow> string \<Rightarrow> string \<Rightarrow> string \<Rightarrow> int \<Rightarrow> int \<Rightarrow> scan_row" where
  "sample_scan i sid sno st late t =
     \<lparr>sc_id = i, sc_session_id = sid, sc_student_no = sno, sc_surname_initials = ''Khumalo T.S.'',
      sc_status = st, sc_minutes_late = late, sc_lat = None, sc_lng = None, sc_scanned_at = t\<rparr>"

definition sample_session_row :: "string \<Rightarrow> string \<Rightarrow> string \<Rightarrow> session_row" where
  "sample_session_row sid cid st =
     \<lparr>ss_id = sid, ss_course_id = cid, ss_lecturer_id = ''L1'', ss_date = ''2024-03-04'',
      ss_start_time = ''09:00'', ss_room = ''B12'', ss_lat = None, ss_lng = None,
      ss_status = st\<rparr>"

definition sample_session :: "string \<Rightarrow> string \<Rightarrow> scan_row list \<Rightarrow> session" where
  "sample_session sid cid scs =
     \<lparr>ss_id = sid, ss_course_id = cid, ss_lecturer_id = ''L1'', ss_date = ''2024-03-04'',
      ss_start_time = ''09:00'', ss_room = ''B12'', ss_lat = None, ss_lng = None,
      ss_status = ''closed'', scans = Some scs\<rparr>"

definition sample_sessions :: "session list" where
  \<comment> \<open>three sessions of course C1 (on time, late, not scanned) and one of course C2\<close>
  "sample_sessions =
     [sample_session ''S1'' ''C1'' [sample_scan 1 ''S1'' ''20210001'' ''present'' 0 10],
      sample_session ''S2'' ''C1'' [sample_scan 2 ''S2'' ''20210002'' ''present'' 3 20,
                                    sample_scan 3 ''S2'' ''20210001'' ''late'' 14 30],
      sample_session ''S3'' ''C2'' [sample_scan 4 ''S3'' ''20210001'' ''present'' 0 40],
      sample_session ''S4'' ''C1'' []]"

definition sample_store :: store where
  \<comment> \<open>one lecturer, one course, one enrolled student, the session S1 open\<close>
  "sample_store =
     \<lparr>online = True, db_now = 1709536440000, next_scan_id = 1,
      tbl_lecturers = [\<lparr>l_id = ''L1'', l_name = ''Dr Mokoena'', l_email = ''m@example.org'',
                        l_department = ''Accounting'', l_passwords = []\<rparr>],
      tbl_courses = [\<lparr>c_id = ''C1'', c_lecturer_id = ''L1'', c_code = ''ACC101'',
                      c_name = ''Accounting 1'', c_department = ''Accounting'', c_year = 2024,
                      c_semester = ''1'', c_total_planned_classes = 40, c_room = ''B12''\<rparr>],
      tbl_students = [\<lparr>stu_id = ''S_20210001'', stu_student_no = ''20210001'',
                       stu_surname_initials = ''Khumalo T.S.''\<rparr>],
      tbl_enrolments = [\<lparr>en_student_id = ''S_20210001'', en_course_id = ''C1''\<rparr>],
      tbl_sessions = [sample_session_row ''S1'' ''C1'' ''active''],
      tbl_scans = []\<rparr>"

definition sample_view :: view where
  \<comment> \<open>the check-in page opened on S1 while it is open, the student number typed\<close>
  "sample_view = type_studentNo ''20210001'' (load_session (Some ''S1'') sample_store initial_view)"

definition sample_first_scan :: scan_row where
  "sample_first_scan =
     \<lparr>sc_id = 1, sc_session_id = ''S1'', sc_student_no = ''20210001'',
      sc_surname_initials = ''Khumalo T.S.'', sc_status = ''late'', sc_minutes_late = 14,
      sc_lat = Some (- 239045 / 10000), sc_lng = Some (294688 / 10000),
      sc_scanned_at = 1709536440000\<rparr>"

definition sample_two_scans :: store where
  \<comment> \<open>S1 with two scans, in the order they were recorded\<close>
  "sample_two_scans = sample_store\<lparr>tbl_scans :=
     [sample_scan 1 ''S1'' ''20210001'' ''present'' 5 1709535900000,
      sample_scan 2 ''S1'' ''20210002'' ''late'' 14 1709536440000]\<rparr>"

definition empty_store :: store where
  "empty_store = \<lparr>online = True, db_now = 0, next_scan_id = 1, tbl_lecturers = [],
     tbl_courses = [], tbl_students = [], tbl_enrolments = [], tbl_sessions = [],
     tbl_scans = []\<rparr>"

definition sample_scanned :: store where
  "sample_scanned = sample_store\<lparr>next_scan_id := 2, tbl_scans := [sample_first_scan]\<rparr>"

definition sample_after_first :: "view \<times> store" where
  "sample_after_first =
     handleScan sample_Date ''2024-03-04T07:14:00.000Z'' None ''S1'' sample_view sample_store"

definition sample_after_second :: "view \<times> store" where
  "sample_after_second =
     handleScan sample_Date ''2024-03-04T07:20:00.000Z'' None ''S1''
       (type_studentNo ''20210001'' (click_done (fst sample_after_first)))
       (snd sample_after_first)"

definition sample_closed :: store where
  "sample_closed = endSession (Some ''S1'') sample_store"

definition sample_scan_after_close :: "view \<times> store" where
  "sample_scan_after_close =
     handleScan sample_Date ''2024-03-04T07:14:00.000Z'' None ''S1'' sample_view sample_closed"

section \<open>Rounding to binary64\<close>

lemma floor_rat_numeral_div [simp]:
  "\<lfloor>numeral a / numeral b :: rat\<rfloor> = numeral a div numeral b"
  by (metis floor_divide_of_int_eq of_int_numeral)

lemma floor_rat_half [simp]: "\<lfloor>1 / 2 :: rat\<rfloor> = 0"
  by (rule floor_unique) simp_all

lemma ceiling_rat_numeral_div [simp]:
  "\<lceil>numeral a / numeral b :: rat\<rceil> = - (- numeral a div numeral b)"
  by (metis ceiling_def divide_minus_left floor_divide_of_int_eq of_int_neg_numeral of_int_numeral)

lemma rne_error: "\<bar>of_int (rne y) - y\<bar> \<le> 1 / 2"
proof -
  have "of_int \<lfloor>y\<rfloor> \<le> y" "y < of_int \<lfloor>y\<rfloor> + 1" by linarith+
  then show ?thesis unfolding rne_def Let_def by (simp add: abs_le_iff)
qed

lemma rne_of_int: "rne (of_int n) = n"
  by (simp add: rne_def)

lemma rne_nonneg: "0 \<le> y \<Longrightarrow> 0 \<le> rne y"
  unfolding rne_def Let_def by simp

lemma ilog2_ge1:
  assumes "1 \<le> x"
  shows "2 powi (ilog2 x) \<le> x \<and> x < 2 powi (ilog2 x + 1)"
proof -
  define n where "n = \<lfloor>x\<rfloor>"
  have n1: "1 \<le> n" using assms by (simp add: n_def)
  define k where "k = nat (bitlen n - 1)"
  have bl: "bitlen n = int k + 1"
    using n1 bitlen_nonneg[of n] bitlen_eq_zero_iff[of n] by (simp add: k_def)
  from bitlen_bounds[of n] n1 have b: "2 ^ k \<le> n" "n < 2 ^ nat (bitlen n)"
    by (auto simp: k_def)
  have nk: "nat (bitlen n) = Suc k" using bl by simp
  have e: "ilog2 x = int k" using assms bl by (simp add: ilog2_def n_def)
  have "(2::rat) ^ k \<le> of_int n" using b(1) by (metis of_int_le_iff of_int_numeral of_int_power)
  also have "\<dots> \<le> x" by (simp add: n_def)
  finally have lo: "(2::rat) ^ k \<le> x" .
  have "n + 1 \<le> 2 ^ Suc k" using b(2) nk by simp
  then have "(of_int (n + 1) :: rat) \<le> 2 ^ Suc k" by (metis of_int_le_iff of_int_numeral of_int_power)
  moreover have "x < of_int (n + 1)" unfolding n_def by linarith
  ultimately have hi: "x < 2 ^ Suc k" by linarith
  have "int k + 1 = int (Suc k)" by simp
  then show ?thesis using lo hi unfolding e by (simp only: power_int_of_nat) 
qed

lemma ilog2_lt1:
  assumes "0 < x" "x < 1"
  shows "2 powi (ilog2 x) \<le> x \<and> x < 2 powi (ilog2 x + 1)"
proof -
  define y where "y = 1 / x"
  have y1: "1 < y" using assms by (simp add: y_def)
  define c where "c = \<lceil>y\<rceil> - 1"
  have c1: "1 \<le> c" using y1 unfolding c_def by linarith
  define k where "k = nat (bitlen c - 1)"
  have bl: "bitlen c = int k + 1"
    using c1 bitlen_nonneg[of c] bitlen_eq_zero_iff[of c] by (simp add: k_def)
  from bitlen_bounds[of c] c1 have b: "2 ^ k \<le> c" "c < 2 ^ nat (bitlen c)"
    by (auto simp: k_def)
  have nk: "nat (bitlen c) = Suc k" using bl by simp
  have e: "ilog2 x = - int (Suc k)" using assms bl by (simp add: ilog2_def c_def y_def)
  have "(2::rat) ^ k \<le> of_int c" using b(1) by (metis of_int_le_iff of_int_numeral of_int_power)
  also have "\<dots> < y" unfolding c_def by linarith
  finally have lo: "(2::rat) ^ k < y" .
  have "c + 1 \<le> 2 ^ Suc k" using b(2) nk by simp
  then have "(of_int (c + 1) :: rat) \<le> 2 ^ Suc k" by (metis of_int_le_iff of_int_numeral of_int_power)
  moreover have "y \<le> of_int (c + 1)" unfolding c_def by simp
  ultimately have hi: "y \<le> 2 ^ Suc k" by linarith
  have p1: "2 powi (ilog2 x) = 1 / (2::rat) ^ Suc k"
    unfolding e by (simp only: power_int_minus_divide power_int_of_nat)
  have p2: "2 powi (ilog2 x + 1) = 1 / (2::rat) ^ k"
  proof -
    have "ilog2 x + 1 = - int k" unfolding e by simp
    then show ?thesis by (simp add: power_int_minus_divide)
  qed
  have xy: "x = 1 / y" using assms by (simp add: y_def)
  have ypos: "0 < y" using y1 by simp
  have A: "1 / (2::rat) ^ Suc k \<le> x"
    unfolding xy using hi ypos by (simp add: frac_le del: power_Suc)
  have B: "x < 1 / (2::rat) ^ k" unfolding xy using lo by (simp add: frac_less2)
  show ?thesis unfolding p1 p2 using A B by blast
qed

lemma ilog2_bounds:
  "0 < x \<Longrightarrow> 2 powi (ilog2 x) \<le> x \<and> x < 2 powi (ilog2 x + 1)"
  using ilog2_ge1[of x] ilog2_lt1[of x] by (cases "1 \<le> x") auto


lemma fl_zero: "fl 0 = 0"
  by (simp add: fl_def)

lemma fl_error: "\<bar>fl x - x\<bar> \<le> \<bar>x\<bar> / 2 ^ 53"
proof (cases "x = 0")
  case True
  then show ?thesis by (simp add: fl_def)
next
  case False
  define a where "a = \<bar>x\<bar>"
  define u :: rat where "u = 2 powi (ilog2 a - 52)"
  have apos: "0 < a" using False by (simp add: a_def)
  have upos: "0 < u" by (simp add: u_def)
  have flx: "fl x = sgn x * (of_int (rne (a / u)) * u)"
    using False by (simp add: fl_def a_def u_def Let_def)
  have xa: "x = sgn x * a" by (simp add: a_def sgn_mult_abs)
  have "fl x - x = sgn x * (of_int (rne (a / u)) * u - a)"
    by (metis flx xa right_diff_distrib)
  then have "\<bar>fl x - x\<bar> = \<bar>of_int (rne (a / u)) * u - a\<bar>"
    using False by (simp add: abs_mult abs_sgn_eq)
  also have "of_int (rne (a / u)) * u - a = (of_int (rne (a / u)) - a / u) * u"
    using upos by (simp add: left_diff_distrib)
  also have "\<bar>\<dots>\<bar> = \<bar>of_int (rne (a / u)) - a / u\<bar> * u"
    using upos by (simp add: abs_mult)
  also have "\<dots> \<le> 1 / 2 * u"
    using rne_error[of "a / u"] upos by (intro mult_right_mono) auto
  also have "1 / 2 * u = 2 powi (ilog2 a) / 2 ^ 53"
  proof -
    have "u = 2 powi (ilog2 a) * 2 powi (- 52)"
      unfolding u_def by (subst power_int_add[symmetric]) auto
    then show ?thesis by (simp add: power_int_minus_divide)
  qed
  also have "\<dots> \<le> a / 2 ^ 53"
    using ilog2_bounds[OF apos] by (simp add: divide_right_mono)
  finally show ?thesis by (simp add: a_def)
qed

lemma fl_nonneg: "0 \<le> x \<Longrightarrow> 0 \<le> fl x"
  by (auto simp: fl_def Let_def sgn_if intro!: mult_nonneg_nonneg rne_nonneg divide_nonneg_pos)

lemma fl_minus: "fl (- x) = - fl x"
  by (simp add: fl_def Let_def)

lemma fl_nonpos: "x \<le> 0 \<Longrightarrow> fl x \<le> 0"
  using fl_nonneg[of "- x"] by (simp add: fl_minus)

lemma pow2_exp_less:
  assumes "(2::rat) powi e < 2 powi n"
  shows "e < n"
proof (rule ccontr)
  assume "\<not> e < n"
  then have "n \<le> e" by simp
  then have "(2::rat) powi n \<le> 2 powi e" by (intro power_int_increasing) auto
  with assms show False by simp
qed

lemma fl_exact:
  assumes x: "x = of_int m * 2 powi j" and m: "\<bar>m\<bar> < 2 ^ 53"
  shows "fl x = x"
proof (cases "m = 0")
  case True
  then show ?thesis using x by (simp add: fl_def)
next
  case False
  define a where "a = \<bar>x\<bar>"
  define e where "e = ilog2 a"
  define u :: rat where "u = 2 powi (e - 52)"
  have xne: "x \<noteq> 0" using False x by simp
  have apos: "0 < a" using xne by (simp add: a_def)
  have upos: "0 < u" by (simp add: u_def)
  have am: "a = of_int \<bar>m\<bar> * 2 powi j"
    unfolding a_def x by (simp add: abs_mult)
  have "(of_int \<bar>m\<bar> :: rat) < of_int (2 ^ 53)" using m by (simp only: of_int_less_iff)
  then have mlt: "(of_int \<bar>m\<bar> :: rat) < 2 ^ 53" by simp
  have "2 powi e \<le> a" using ilog2_bounds[OF apos] by (simp add: e_def)
  also have "a < 2 ^ 53 * 2 powi j"
    unfolding am using mlt by (intro mult_strict_right_mono) auto
  also have "\<dots> = 2 powi (53 + j)"
    by (subst power_int_add) auto
  finally have "e < 53 + j" by (rule pow2_exp_less)
  then have d: "0 \<le> j - (e - 52)" by simp
  define d where "d = nat (j - (e - 52))"
  have jd: "j = int d + (e - 52)" using d by (simp add: d_def)
  have "2 powi j = (2::rat) powi (int d) * 2 powi (e - 52)"
    by (subst jd, subst power_int_add) auto
  then have "(2::rat) powi j = 2 ^ d * u" by (simp add: u_def)
  then have "a / u = of_int \<bar>m\<bar> * 2 ^ d" using upos by (simp add: am)
  also have "\<dots> = of_int (\<bar>m\<bar> * 2 ^ d)" by simp
  finally have "rne (a / u) = \<bar>m\<bar> * 2 ^ d" by (simp only: rne_of_int)
  then have "of_int (rne (a / u)) * u = a"
    using \<open>a / u = of_int \<bar>m\<bar> * 2 ^ d\<close> upos by (simp add: field_simps)
  moreover have "fl x = sgn x * (of_int (rne (a / u)) * u)"
    using xne by (simp add: fl_def a_def u_def e_def Let_def)
  ultimately show ?thesis by (simp add: a_def sgn_mult_abs)
qed

lemma fl_of_int: "\<bar>n\<bar> < 2 ^ 53 \<Longrightarrow> fl (of_int n) = of_int n"
  using fl_exact[of "of_int n" n 0] by simp

lemma fl_half_int: "\<bar>n\<bar> < 2 ^ 53 \<Longrightarrow> fl (of_int n / 2) = of_int n / 2"
  using fl_exact[of "of_int n / 2" n "-1"] by (simp add: power_int_minus_divide)

section \<open>Attendance percentage\<close>

lemma round_half_up_near:
  assumes lo: "of_int R - 1 / 2 + d \<le> x" and hi: "x + d \<le> of_int R + 1 / 2"
    and near: "\<bar>y - x\<bar> < d"
  shows "round_half_up y = R"
proof -
  have "of_int R \<le> y + 1 / 2" "y + 1 / 2 < of_int R + 1" using assms by linarith+
  then show ?thesis unfolding round_half_up_def by linarith
qed

lemma fl_fl_mult_error:
  assumes "0 \<le> q"
  shows "\<bar>fl (fl q * 100) - 100 * q\<bar> \<le> 100 * q * (2 / 2 ^ 53 + 1 / (2 ^ 53 * 2 ^ 53))"
proof -
  define e :: rat where "e = 1 / 2 ^ 53"
  have e: "0 < e" by (simp add: e_def)
  have 1: "\<bar>fl q - q\<bar> \<le> q * e" using fl_error[of q] assms by (simp add: e_def)
  have q1: "0 \<le> fl q" using assms by (rule fl_nonneg)
  have 2: "\<bar>fl (fl q * 100) - fl q * 100\<bar> \<le> fl q * 100 * e"
    using fl_error[of "fl q * 100"] q1 by (simp add: e_def)
  have 3: "fl q \<le> q + q * e" using 1 by linarith
  have "fl q * 100 * e \<le> (q + q * e) * 100 * e"
    using 3 e by (intro mult_right_mono) auto
  with 2 have 4: "\<bar>fl (fl q * 100) - fl q * 100\<bar> \<le> (q + q * e) * 100 * e" by linarith
  have 5: "\<bar>fl q * 100 - 100 * q\<bar> \<le> 100 * (q * e)" using 1 by linarith
  have "\<bar>fl (fl q * 100) - 100 * q\<bar> \<le> (q + q * e) * 100 * e + 100 * (q * e)"
    using 4 5 by linarith
  also have "\<dots> = 100 * q * (2 * e + e * e)" by (simp add: algebra_simps)
  finally show ?thesis by (simp add: e_def)
qed

lemma pct_no_tie:
  assumes t: "0 < total'" and a: "attended \<le> 10 ^ 13"
    and tie: "\<not> 2 * total' dvd 200 * attended + total'"
  shows "pct attended total' = round_half_up (100 * of_nat attended / of_nat total')"
proof -
  define q :: rat where "q = of_nat attended / of_nat total'"
  define x :: rat where "x = 100 * q"
  define N :: int where "N = int (200 * attended + total')"
  define T :: int where "T = int (2 * total')"
  define R where "R = N div T"
  define r where "r = N mod T"
  define c :: rat where "c = 2 / 2 ^ 53 + 1 / (2 ^ 53 * 2 ^ 53)"
  have Tpos: "0 < T" using t by (simp add: T_def)
  have tpos: "(0::rat) < of_nat total'" using t by simp
  have NR: "N = T * R + r" by (simp add: R_def r_def)
  have r_lt: "r < T" and r_ge: "0 \<le> r" using Tpos by (simp_all add: r_def)
  have "\<not> T dvd N" unfolding T_def N_def int_dvd_int_iff by (rule tie)
  then have "r \<noteq> 0" by (simp add: r_def mod_eq_0_iff_dvd)
  with r_ge r_lt have r1: "1 \<le> r" "r \<le> T - 1" by simp_all
  have xN: "x + 1 / 2 = of_int N / of_int T"
    using tpos by (simp add: x_def q_def N_def T_def field_simps)
  have "of_int N / (of_int T :: rat) = of_int R + of_int r / of_int T"
    using Tpos by (simp add: NR field_simps)
  with xN have xR: "x = of_int R - 1 / 2 + of_int r / of_int T" by simp
  have Tr: "(0::rat) < of_int T" using Tpos by simp
  have "(1::rat) \<le> of_int r" using r1(1) by simp
  then have lo1: "1 / of_int T \<le> (of_int r :: rat) / of_int T"
    using Tr by (simp add: divide_right_mono)
  have "(of_int r :: rat) \<le> of_int T - 1" using r1(2) by (metis of_int_1 of_int_diff of_int_le_iff)
  then have "(of_int r :: rat) / of_int T \<le> (of_int T - 1) / of_int T"
    using Tr by (simp add: divide_right_mono)
  also have "\<dots> = 1 - 1 / of_int T" using Tr by (simp add: field_simps)
  finally have hi1: "(of_int r :: rat) / of_int T \<le> 1 - 1 / of_int T" .
  have lo: "of_int R - 1 / 2 + 1 / of_int T \<le> x" using lo1 xR by linarith
  have hi: "x + 1 / of_int T \<le> of_int R + 1 / 2" using hi1 xR by linarith
  have q0: "0 \<le> q" by (simp add: q_def)
  have err: "\<bar>fl (fl q * 100) - x\<bar> \<le> x * c"
    using fl_fl_mult_error[OF q0] by (simp add: x_def c_def)
  have "(of_nat attended :: rat) \<le> of_nat (10 ^ 13)" using a by (simp only: of_nat_le_iff)
  then have a': "(of_nat attended :: rat) \<le> 10 ^ 13" by simp
  have cpos: "0 < c" by (simp add: c_def)
  have "200 * of_nat attended * c \<le> 200 * 10 ^ 13 * c"
    using a' cpos by (intro mult_right_mono mult_left_mono) auto
  also have "\<dots> < 1" by (simp add: c_def)
  finally have "200 * of_nat attended * c < 1" .
  then have "200 * of_nat attended * c / of_int T < 1 / of_int T"
    using Tr by (simp add: divide_strict_right_mono)
  moreover have "x * c = 200 * of_nat attended * c / of_int T"
    using tpos by (simp add: x_def q_def T_def field_simps)
  ultimately have "x * c < 1 / of_int T" by simp
  with err have near: "\<bar>fl (fl q * 100) - x\<bar> < 1 / of_int T" by linarith
  have 1: "round_half_up (fl (fl q * 100)) = R"
    using lo hi near by (rule round_half_up_near)
  have near0: "\<bar>x - x\<bar> < 1 / of_int T" using Tr by simp
  have 2: "round_half_up x = R" using lo hi near0 by (rule round_half_up_near)
  have "x = 100 * of_nat attended / of_nat total'" by (simp add: x_def q_def)
  then show ?thesis using 1 2 t by (simp add: pct_def q_def)
qed

lemma pct_total_zero: "pct attended 0 = 0"
  by (simp add: pct_def)

lemma pct_off_halves:
  assumes "0 < total'" "present + late \<le> 10 ^ 13"
    and "\<not> 2 * total' dvd 200 * (present + late) + total'"
  shows "pct (present + late) total' = pct_spec present late total'"
proof -
  have "max total' 1 = total'" using assms(1) by simp
  then show ?thesis unfolding pct_spec_def using pct_no_tie[OF assms] by simp
qed

lemma pct_seven_of_ten: "pct (5 + 2) 10 = 70 \<and> pct_spec 5 2 10 = 70"
proof -
  have s: "pct_spec 5 2 10 = 70" by (simp add: pct_spec_def round_half_up_def)
  show ?thesis using s pct_off_halves[of 10 5 2] by simp
qed

text \<open>
  C4 at a failing input.  A student with 23 of 40 sessions attended (23 present, none
  late) has \<open>100 * 23 / 40 = 57.5\<close>, which rounds to 58; the code divides first, the
  quotient \<open>0.575\<close> is rounded down to the nearest binary64 value, the product with 100
  is \<open>57.49999999999999\<close>, and \<open>Math.round\<close> gives 57, also through the callers'
  \<open>Math.max(total, 1)\<close> and in the export row.  Away from exact halves (and for total 0)
  the code does compute the formula: \<open>pct_off_halves\<close>, \<open>pct_total_zero\<close>.
\<close>

theorem pct_exact_half_rounds_down:
  "pct (23 + 0) 40 = 57
   \<and> pct (23 + 0) (max 40 1) = 57
   \<and> x_attPct (export_row_tail 23 0 40) = 57
   \<and> pct_spec 23 0 40 = 58
   \<and> fl (23 / 40) < 23 / 40
   \<and> fl (fl (23 / 40) * 100) < 115 / 2"
  by (simp add: pct_def pct_spec_def export_row_tail_def fl_def ilog2_def compute_bitlen
      rne_def round_half_up_def Let_def)

section \<open>Check-in classification\<close>

lemma getScanStatus_valid:
  assumes "Date scanTime = Some s"
    and "Date (sessionDate @ ''T'' @ sessionStartTime @ '':00'') = Some t"
  shows "getScanStatus Date scanTime sessionDate sessionStartTime =
           \<lparr>status = (if js_diff s t \<le> 10 then ''present'' else ''late''),
            minutesLate = Num (max 0 (of_int (round_half_up (js_diff s t))))\<rparr>"
  using assms
  by (simp add: getScanStatus_def time_value_def js_arith_def js_le_def Math_round_def
      Math_max_def js_diff_def Let_def)

lemma fl_lower:
  assumes "0 \<le> x"
  shows "x * (1 - 1 / 2 ^ 53) \<le> fl x"
proof -
  have "\<bar>fl x - x\<bar> \<le> x / 2 ^ 53" using fl_error[of x] assms by simp
  then have "x - x / 2 ^ 53 \<le> fl x" by linarith
  moreover have "x * (1 - 1 / 2 ^ 53) = x - x / 2 ^ 53" by (simp add: algebra_simps)
  ultimately show ?thesis by simp
qed

lemma fl_upper:
  assumes "0 \<le> x"
  shows "fl x \<le> x * (1 + 1 / 2 ^ 53)"
proof -
  have "\<bar>fl x - x\<bar> \<le> x / 2 ^ 53" using fl_error[of x] assms by simp
  then have "fl x \<le> x + x / 2 ^ 53" by linarith
  moreover have "x * (1 + 1 / 2 ^ 53) = x + x / 2 ^ 53" by (simp add: algebra_simps)
  ultimately show ?thesis by simp
qed

lemma js_diff_le_10: "(js_diff s t \<le> 10) = (s - t \<le> 600000)"
proof -
  define n where "n = s - t"
  define m where "m = fl (of_int n)"
  have d: "js_diff s t = fl (m / 60000)" by (simp add: js_diff_def m_def n_def)
  consider "n < 0" | "0 \<le> n" "n \<le> 599999" | "n = 600000" | "600001 \<le> n" by linarith
  then have "(fl (m / 60000) \<le> 10) = (n \<le> 600000)"
  proof cases
    case 1
    then have "m \<le> 0" unfolding m_def by (intro fl_nonpos) simp
    then have "fl (m / 60000) \<le> 0" by (intro fl_nonpos) simp
    with 1 show ?thesis by simp
  next
    case 2
    then have "\<bar>n\<bar> < 2 ^ 53" by simp
    then have mn: "m = of_int n" unfolding m_def by (rule fl_of_int)
    have x0: "(0::rat) \<le> of_int n / 60000" using 2 by simp
    have "(of_int n :: rat) \<le> of_int 599999" using 2(2) by (simp only: of_int_le_iff)
    then have "(of_int n :: rat) / 60000 \<le> 599999 / 60000" by simp
    then have "of_int n / 60000 * (1 + 1 / 2 ^ 53) \<le> 599999 / 60000 * (1 + 1 / 2 ^ 53 :: rat)"
      by (intro mult_right_mono) auto
    also have "\<dots> \<le> 10" by simp
    finally have "fl (of_int n / 60000) \<le> 10" using fl_upper[OF x0] by linarith
    with 2 mn show ?thesis by simp
  next
    case 3
    then have "m = 600000" using fl_of_int[of 600000] by (simp add: m_def)
    then have "fl (m / 60000) = 10" using fl_of_int[of 10] by simp
    with 3 show ?thesis by simp
  next
    case 4
    define k :: rat where "k = 1 - 1 / 2 ^ 53"
    have k: "0 < k" by (simp add: k_def)
    have n0: "(0::rat) \<le> of_int n" using 4 by simp
    have "(of_int 600001 :: rat) \<le> of_int n" using 4 by (simp only: of_int_le_iff)
    then have "600001 * k \<le> of_int n * k" using k by (intro mult_right_mono) auto
    also have "\<dots> \<le> m" unfolding m_def k_def using n0 by (rule fl_lower)
    finally have m1: "600001 * k \<le> m" .
    then have m0: "0 \<le> m / 60000" using k by (simp add: k_def) 
    have "600001 * k / 60000 * k \<le> m / 60000 * k"
      using m1 k by (intro mult_right_mono divide_right_mono) auto
    also have "\<dots> \<le> fl (m / 60000)" unfolding k_def using m0 by (rule fl_lower)
    finally have "600001 * k / 60000 * k \<le> fl (m / 60000)" .
    moreover have "10 < 600001 * k / 60000 * k" by (simp add: k_def)
    ultimately have "10 < fl (m / 60000)" by linarith
    with 4 show ?thesis by simp
  qed
  then show ?thesis by (simp add: d n_def)
qed

lemma js_diff_round:
  assumes "\<bar>s - t\<bar> < 2 ^ 53"
  shows "round_half_up (js_diff s t) = round_half_up (elapsed s t)"
proof -
  define n where "n = s - t"
  define x :: rat where "x = of_int n / 60000"
  define R where "R = (n + 30000) div 60000"
  define r where "r = (n + 30000) mod 60000"
  have nb: "\<bar>n\<bar> < 2 ^ 53" using assms by (simp add: n_def)
  have d: "js_diff s t = fl x"
    using fl_of_int[OF nb] by (simp add: js_diff_def x_def n_def)
  have el: "elapsed s t = x" by (simp add: elapsed_def x_def n_def)
  have NR: "n + 30000 = 60000 * R + r" by (simp add: R_def r_def)
  have r_ge: "0 \<le> r" and r_lt: "r < 60000" by (simp_all add: r_def)
  have xR: "x = of_int R - 1 / 2 + of_int r / 60000"
  proof -
    have "n = 60000 * R + r - 30000" using NR by simp
    then show ?thesis by (simp add: x_def field_simps)
  qed
  show ?thesis
  proof (cases "r = 0")
    case True
    then have n2: "n = 30000 * (2 * R - 1)" using NR by simp
    define k where "k = \<bar>2 * R - 1\<bar>"
    define a where "a = \<bar>n\<bar>"
    have "a = 30000 * k" unfolding a_def k_def n2 by (simp only: abs_mult abs_numeral)
    moreover have "0 \<le> k" by (simp add: k_def)
    ultimately have "k \<le> a" by linarith
    then have "\<bar>2 * R - 1\<bar> \<le> \<bar>n\<bar>" by (simp add: a_def k_def)
    then have "\<bar>2 * R - 1\<bar> < 2 ^ 53" using nb by linarith
    then have "fl (of_int (2 * R - 1) / 2) = of_int (2 * R - 1) / 2" by (rule fl_half_int)
    moreover have "x = of_int (2 * R - 1) / 2" using True xR by simp
    ultimately have "fl x = x" by (simp only:)
    then show ?thesis by (simp only: d el)
  next
    case False
    with r_ge r_lt have r1: "1 \<le> r" "r \<le> 59999" by simp_all
    have "(of_int 1 :: rat) \<le> of_int r" using r1(1) by (simp only: of_int_le_iff)
    then have lo: "of_int R - 1 / 2 + 1 / 60000 \<le> x" unfolding xR by simp
    have "(of_int r :: rat) \<le> of_int 59999" using r1(2) by (simp only: of_int_le_iff)
    then have hi: "x + 1 / 60000 \<le> of_int R + 1 / 2" unfolding xR by simp
    have "(of_int \<bar>n\<bar> :: rat) < of_int (2 ^ 53)" using nb by (simp only: of_int_less_iff)
    then have "\<bar>x\<bar> < 2 ^ 53 / 60000" by (simp add: x_def)
    then have "\<bar>x\<bar> / 2 ^ 53 < 1 / 60000" by (simp add: field_simps)
    with fl_error[of x] have near: "\<bar>fl x - x\<bar> < 1 / 60000" by linarith
    have near0: "\<bar>x - x\<bar> < 1 / 60000" by simp
    have "round_half_up (fl x) = R" using lo hi near by (rule round_half_up_near)
    moreover have "round_half_up x = R" using lo hi near0 by (rule round_half_up_near)
    ultimately show ?thesis by (simp add: d el)
  qed
qed

lemma js_diff_nonpos: "s \<le> t \<Longrightarrow> js_diff s t \<le> 0"
  unfolding js_diff_def by (intro fl_nonpos divide_nonpos_nonneg) auto

lemma getScanStatus_invalid_date:
  assumes "Date scanTime = None \<or> Date (sessionDate @ ''T'' @ sessionStartTime @ '':00'') = None"
  shows "getScanStatus Date scanTime sessionDate sessionStartTime
           = \<lparr>status = ''late'', minutesLate = NaN\<rparr>"
proof (cases "Date scanTime")
  case None
  then show ?thesis
    by (simp add: getScanStatus_def time_value_def js_arith_def js_le_def
        Math_round_def Math_max_def Let_def)
next
  case (Some s)
  then have "Date (sessionDate @ ''T'' @ sessionStartTime @ '':00'') = None"
    using assms by simp
  then show ?thesis
    by (simp add: getScanStatus_def time_value_def js_arith_def js_le_def
        Math_round_def Math_max_def Let_def split: jsnum.split)
qed

text \<open>
  C1, as the code has it.  For a scan time and a session start that are valid dates less
  than \<open>2^53\<close> milliseconds apart, the status is present if and only if the elapsed
  minutes are at most 10, and late otherwise.  The minutes-late value is
  \<open>max(0, round(elapsed))\<close> whatever the status: it is \<open>round(elapsed)\<close> when late, it is
  between 0 and 10 when present, and it is never negative.
\<close>

theorem getScanStatus_classification:
  assumes "Date scanTime = Some s"
    and "Date (sessionDate @ ''T'' @ sessionStartTime @ '':00'') = Some t"
    and "\<bar>s - t\<bar> < 2 ^ 53"
  shows "getScanStatus Date scanTime sessionDate sessionStartTime =
           (if elapsed s t \<le> 10
            then \<lparr>status = ''present'',
                  minutesLate = Num (of_int (max 0 (round_half_up (elapsed s t))))\<rparr>
            else \<lparr>status = ''late'',
                  minutesLate = Num (of_int (round_half_up (elapsed s t)))\<rparr>)
         \<and> (\<exists>m. minutesLate (getScanStatus Date scanTime sessionDate sessionStartTime)
                    = Num (of_int m) \<and> 0 \<le> m
                \<and> (if elapsed s t \<le> 10 then m \<le> 10 else 10 \<le> m))"
proof -
  have "((of_int (s - t) :: rat) \<le> of_int 600000) = (s - t \<le> 600000)"
    by (simp only: of_int_le_iff)
  then have e10: "(elapsed s t \<le> 10) = (s - t \<le> 600000)"
    by (simp add: elapsed_def)
  have late: "round_half_up (elapsed s t) \<ge> 10" if "\<not> elapsed s t \<le> 10"
    using that unfolding round_half_up_def by linarith
  have pres: "round_half_up (elapsed s t) \<le> 10" if "elapsed s t \<le> 10"
    using that unfolding round_half_up_def by linarith
  have of_max: "max 0 (of_int k) = (of_int (max 0 k) :: rat)" for k by (simp add: max_def)
  have eq: "getScanStatus Date scanTime sessionDate sessionStartTime =
           \<lparr>status = (if elapsed s t \<le> 10 then ''present'' else ''late''),
            minutesLate = Num (of_int (max 0 (round_half_up (elapsed s t))))\<rparr>"
    unfolding getScanStatus_valid[OF assms(1,2)] js_diff_le_10 js_diff_round[OF assms(3)] e10 of_max ..
  show ?thesis
  proof (cases "elapsed s t \<le> 10")
    case True
    with pres show ?thesis unfolding eq by (auto intro!: exI[of _ "max 0 (round_half_up (elapsed s t))"])
  next
    case False
    with late[OF False] show ?thesis unfolding eq
      by (auto simp: max_def intro!: exI[of _ "round_half_up (elapsed s t)"])
  qed
qed

theorem getScanStatus_classification_witness:
  "sample_Date ''2024-03-04T07:14:00.000Z'' = Some 1709536440000
   \<and> sample_Date (''2024-03-04'' @ ''T'' @ ''09:00'' @ '':00'') = Some 1709535600000
   \<and> \<bar>1709536440000 - 1709535600000\<bar> < (2::int) ^ 53
   \<and> getScanStatus sample_Date ''2024-03-04T07:14:00.000Z'' ''2024-03-04'' ''09:00''
       = \<lparr>status = ''late'', minutesLate = Num 14\<rparr>"
proof -
  have a: "sample_Date ''2024-03-04T07:14:00.000Z'' = Some 1709536440000"
    and b: "sample_Date (''2024-03-04'' @ ''T'' @ ''09:00'' @ '':00'') = Some 1709535600000"
    and c: "\<bar>1709536440000 - 1709535600000\<bar> < (2::int) ^ 53"
    by (simp_all add: sample_Date_def)
  show ?thesis
    using a b c getScanStatus_classification[OF a b c]
    by (simp add: elapsed_def round_half_up_def)
qed

theorem getScanStatus_present_minutes_counterexample:
  "status (getScanStatus sample_Date ''2024-03-04T07:05:00.000Z'' ''2024-03-04'' ''09:00'')
     = ''present''
   \<and> minutesLate (getScanStatus sample_Date ''2024-03-04T07:05:00.000Z'' ''2024-03-04'' ''09:00'')
     \<noteq> Num 0"
  by (simp add: getScanStatus_def sample_Date_def time_value_def js_arith_def js_le_def
      Math_round_def Math_max_def Let_def fl_def ilog2_def compute_bitlen rne_def
      round_half_up_def)

text \<open>
  C9.  A scan whose time is at or before the session's start (both valid dates) is
  present with minutes-late 0: never late, never negative.
\<close>

theorem early_scan_present:
  assumes "Date scanTime = Some s"
    and "Date (sessionDate @ ''T'' @ sessionStartTime @ '':00'') = Some t"
    and "s \<le> t"
  shows "getScanStatus Date scanTime sessionDate sessionStartTime =
           \<lparr>status = ''present'', minutesLate = Num 0\<rparr>"
proof -
  have d: "js_diff s t \<le> 0" using assms(3) by (rule js_diff_nonpos)
  then have "round_half_up (js_diff s t) \<le> 0" unfolding round_half_up_def by linarith
  then have "max 0 (of_int (round_half_up (js_diff s t))) = (0::rat)" by (simp add: max_def)
  with d show ?thesis unfolding getScanStatus_valid[OF assms(1,2)] by simp
qed

theorem early_scan_present_witness:
  "sample_Date ''2024-03-04T06:58:00.000Z'' = Some 1709535480000
   \<and> sample_Date (''2024-03-04'' @ ''T'' @ ''09:00'' @ '':00'') = Some 1709535600000
   \<and> (1709535480000::int) \<le> 1709535600000
   \<and> getScanStatus sample_Date ''2024-03-04T06:58:00.000Z'' ''2024-03-04'' ''09:00''
       = \<lparr>status = ''present'', minutesLate = Num 0\<rparr>"
proof -
  have a: "sample_Date ''2024-03-04T06:58:00.000Z'' = Some 1709535480000"
    and b: "sample_Date (''2024-03-04'' @ ''T'' @ ''09:00'' @ '':00'') = Some 1709535600000"
    and c: "(1709535480000::int) \<le> 1709535600000"
    by (simp_all add: sample_Date_def)
  show ?thesis using a b c early_scan_present[OF a b c] by simp
qed

section \<open>Statistics\<close>

lemma find_first_filter:
  "find P xs = (case filter P xs of [] \<Rightarrow> None | x # _ \<Rightarrow> Some x)"
  by (induction xs) simp_all

lemma is_absent_no_scans: "is_absent studentNo s = (student_scans studentNo s = [])"
  by (auto simp: is_absent_def student_scans_def filter_empty_conv)

lemma count_session_step:
  "count_session studentNo s (p, l, a) =
     (p + (if is_present studentNo s then 1 else 0),
      l + (if is_late studentNo s then 1 else 0),
      a + (if is_absent studentNo s then 1 else 0))"
proof -
  have f: "find_scan studentNo s =
             (case student_scans studentNo s of [] \<Rightarrow> None | sc # _ \<Rightarrow> Some sc)"
    unfolding find_scan_def student_scans_def by (rule find_first_filter)
  show ?thesis
    by (cases "student_scans studentNo s")
       (simp_all add: count_session_def f is_absent_no_scans is_late_def is_present_def)
qed

lemma fold_count_session:
  "fold (count_session studentNo) cs (p, l, a) =
     (p + length (filter (is_present studentNo) cs),
      l + length (filter (is_late studentNo) cs),
      a + length (filter (is_absent studentNo) cs))"
  by (induction cs arbitrary: p l a) (simp_all add: count_session_step)

lemma studentCourseStats_eq:
  "studentCourseStats studentNo courseId sessions =
     (let cs = filter (\<lambda>s. ss_course_id s = courseId) sessions
      in \<lparr>st_total = length cs,
          st_present = length (filter (is_present studentNo) cs),
          st_late = length (filter (is_late studentNo) cs),
          st_absent = length (filter (is_absent studentNo) cs)\<rparr>)"
  by (simp add: studentCourseStats_def fold_count_session Let_def)

lemma three_way_partition:
  "length (filter (is_present studentNo) cs) + length (filter (is_late studentNo) cs)
     + length (filter (is_absent studentNo) cs) = length cs"
proof (induction cs)
  case Nil
  then show ?case by simp
next
  case (Cons s cs)
  then show ?case
    by (cases "student_scans studentNo s")
       (simp_all add: is_absent_no_scans is_late_def is_present_def)
qed

lemma length_filter_mset: "mset xs = mset ys \<Longrightarrow> length (filter P xs) = length (filter P ys)"
  by (metis mset_filter size_mset)

lemma studentCourseStats_perm:
  assumes "mset sessions' = mset sessions"
  shows "studentCourseStats studentNo courseId sessions'
         = studentCourseStats studentNo courseId sessions"
proof -
  define cs where "cs = filter (\<lambda>s. ss_course_id s = courseId) sessions"
  define cs' where "cs' = filter (\<lambda>s. ss_course_id s = courseId) sessions'"
  have m: "mset cs' = mset cs" using assms by (simp add: cs_def cs'_def)
  have len: "length (filter P cs') = length (filter P cs)" for P
    using m by (rule length_filter_mset)
  have "length cs' = length cs" using m by (rule mset_eq_length)
  then show ?thesis
    unfolding studentCourseStats_eq Let_def cs_def[symmetric] cs'_def[symmetric]
    by (simp only: len)
qed

text \<open>
  C3.  For every student number, course and list of sessions, with \<open>cs\<close> the sessions of
  the course: the total is the number of \<open>cs\<close>; a session counts as absent when none
  of its scans carries the student number, as late when the first of its scans that
  carries the number has status late, as present otherwise; present + late + absent =
  total.  The result is the same for every reordering of the list, and it is a function
  of the three arguments alone.
\<close>

theorem studentCourseStats_counts:
  "st_total (studentCourseStats studentNo courseId sessions)
     = length (filter (\<lambda>s. ss_course_id s = courseId) sessions)
   \<and> st_absent (studentCourseStats studentNo courseId sessions)
     = length (filter (is_absent studentNo) (filter (\<lambda>s. ss_course_id s = courseId) sessions))
   \<and> st_late (studentCourseStats studentNo courseId sessions)
     = length (filter (is_late studentNo) (filter (\<lambda>s. ss_course_id s = courseId) sessions))
   \<and> st_present (studentCourseStats studentNo courseId sessions)
     = length (filter (is_present studentNo) (filter (\<lambda>s. ss_course_id s = courseId) sessions))
   \<and> st_present (studentCourseStats studentNo courseId sessions)
       + st_late (studentCourseStats studentNo courseId sessions)
       + st_absent (studentCourseStats studentNo courseId sessions)
     = st_total (studentCourseStats studentNo courseId sessions)
   \<and> (mset sessions' = mset sessions
      \<longrightarrow> studentCourseStats studentNo courseId sessions'
          = studentCourseStats studentNo courseId sessions)"
proof -
  define cs where "cs = filter (\<lambda>s. ss_course_id s = courseId) sessions"
  have r: "studentCourseStats studentNo courseId sessions =
      \<lparr>st_total = length cs,
       st_present = length (filter (is_present studentNo) cs),
       st_late = length (filter (is_late studentNo) cs),
       st_absent = length (filter (is_absent studentNo) cs)\<rparr>"
    by (simp only: studentCourseStats_eq Let_def cs_def)
  have p: "studentCourseStats studentNo courseId sessions'
           = studentCourseStats studentNo courseId sessions"
    if "mset sessions' = mset sessions"
    using that by (rule studentCourseStats_perm)
  have c: "st_total (studentCourseStats studentNo courseId sessions) = length cs
     \<and> st_absent (studentCourseStats studentNo courseId sessions)
         = length (filter (is_absent studentNo) cs)
     \<and> st_late (studentCourseStats studentNo courseId sessions)
         = length (filter (is_late studentNo) cs)
     \<and> st_present (studentCourseStats studentNo courseId sessions)
         = length (filter (is_present studentNo) cs)
     \<and> st_present (studentCourseStats studentNo courseId sessions)
         + st_late (studentCourseStats studentNo courseId sessions)
         + st_absent (studentCourseStats studentNo courseId sessions)
         = st_total (studentCourseStats studentNo courseId sessions)"
    unfolding r using three_way_partition[of studentNo cs] by simp
  have q: "mset sessions' = mset sessions
      \<longrightarrow> studentCourseStats studentNo courseId sessions'
          = studentCourseStats studentNo courseId sessions"
    using p by (rule impI)
  from c[unfolded cs_def] q show ?thesis by (elim conjE) (intro conjI, assumption+)
qed

theorem studentCourseStats_counts_witness:
  "mset (rev sample_sessions) = mset sample_sessions
   \<and> studentCourseStats ''20210001'' ''C1'' sample_sessions
       = \<lparr>st_total = 3, st_present = 1, st_late = 1, st_absent = 1\<rparr>
   \<and> studentCourseStats ''20210002'' ''C1'' sample_sessions
       = \<lparr>st_total = 3, st_present = 1, st_late = 0, st_absent = 2\<rparr>
   \<and> studentCourseStats ''20210003'' ''C1'' sample_sessions
       = \<lparr>st_total = 3, st_present = 0, st_late = 0, st_absent = 3\<rparr>
   \<and> studentCourseStats ''20210001'' ''C2'' sample_sessions
       = \<lparr>st_total = 1, st_present = 1, st_late = 0, st_absent = 0\<rparr>
   \<and> studentCourseStats ''20210001'' ''C1'' (rev sample_sessions)
       = studentCourseStats ''20210001'' ''C1'' sample_sessions"
proof -
  have h: "mset (rev sample_sessions) = mset sample_sessions" by simp
  note ev = sample_sessions_def sample_session_def sample_scan_def is_present_def
    is_late_def is_absent_def student_scans_def or_empty_def
  note t = studentCourseStats_counts[of "''20210001''" "''C1''" sample_sessions
      "rev sample_sessions"]
  have r1: "studentCourseStats ''20210001'' ''C1'' sample_sessions
       = \<lparr>st_total = 3, st_present = 1, st_late = 1, st_absent = 1\<rparr>"
    using t[THEN conjunct1] t[THEN conjunct2, THEN conjunct1]
      t[THEN conjunct2, THEN conjunct2, THEN conjunct1]
      t[THEN conjunct2, THEN conjunct2, THEN conjunct2, THEN conjunct1]
    by (intro stats.equality) (simp_all add: ev)
  note u = studentCourseStats_counts[of "''20210002''" "''C1''" sample_sessions sample_sessions]
  have r2: "studentCourseStats ''20210002'' ''C1'' sample_sessions
       = \<lparr>st_total = 3, st_present = 1, st_late = 0, st_absent = 2\<rparr>"
    using u[THEN conjunct1] u[THEN conjunct2, THEN conjunct1]
      u[THEN conjunct2, THEN conjunct2, THEN conjunct1]
      u[THEN conjunct2, THEN conjunct2, THEN conjunct2, THEN conjunct1]
    by (intro stats.equality) (simp_all add: ev)
  note v = studentCourseStats_counts[of "''20210003''" "''C1''" sample_sessions sample_sessions]
  have r3: "studentCourseStats ''20210003'' ''C1'' sample_sessions
       = \<lparr>st_total = 3, st_present = 0, st_late = 0, st_absent = 3\<rparr>"
    using v[THEN conjunct1] v[THEN conjunct2, THEN conjunct1]
      v[THEN conjunct2, THEN conjunct2, THEN conjunct1]
      v[THEN conjunct2, THEN conjunct2, THEN conjunct2, THEN conjunct1]
    by (intro stats.equality) (simp_all add: ev)
  note w = studentCourseStats_counts[of "''20210001''" "''C2''" sample_sessions sample_sessions]
  have r4: "studentCourseStats ''20210001'' ''C2'' sample_sessions
       = \<lparr>st_total = 1, st_present = 1, st_late = 0, st_absent = 0\<rparr>"
    using w[THEN conjunct1] w[THEN conjunct2, THEN conjunct1]
      w[THEN conjunct2, THEN conjunct2, THEN conjunct1]
      w[THEN conjunct2, THEN conjunct2, THEN conjunct2, THEN conjunct1]
    by (intro stats.equality) (simp_all add: ev)
  have p: "studentCourseStats ''20210001'' ''C1'' (rev sample_sessions)
       = studentCourseStats ''20210001'' ''C1'' sample_sessions"
    using t[THEN conjunct2, THEN conjunct2, THEN conjunct2, THEN conjunct2, THEN conjunct2] h
    by (rule mp)
  show ?thesis by (intro conjI) (rule h, rule r1, rule r2, rule r3, rule r4, rule p)
qed

section \<open>Policy bands\<close>

text \<open>
  C6.  For every percentage \<open>p\<close> the band is Good Standing exactly when \<open>p \<ge> 80\<close>, At Risk
  exactly when \<open>60 \<le> p < 80\<close> and Critical exactly when \<open>p < 60\<close>; so 80 is Good Standing,
  79 and 60 are At Risk and 59 is Critical.  The export's row carries the at-risk flag
  exactly when the percentage of that row is below 80; its status is the band of that
  percentage, and the percentage is the one \<open>pct\<close> computes.
\<close>

theorem attendanceStatus_bands:
  "(label (attendanceStatus p) = ''Good Standing'') = (80 \<le> p)
   \<and> (label (attendanceStatus p) = ''At Risk'') = (60 \<le> p \<and> p < 80)
   \<and> (label (attendanceStatus p) = ''Critical'') = (p < 60)
   \<and> label (attendanceStatus 80) = ''Good Standing''
   \<and> label (attendanceStatus 79) = ''At Risk''
   \<and> label (attendanceStatus 60) = ''At Risk''
   \<and> label (attendanceStatus 59) = ''Critical''
   \<and> (x_atRisk (export_row_tail present late total') = yes_intervention)
       = (x_attPct (export_row_tail present late total') < 80)
   \<and> (x_atRisk (export_row_tail present late total') \<noteq> ''No'')
       = (x_attPct (export_row_tail present late total') < 80)
   \<and> x_status (export_row_tail present late total')
       = label (attendanceStatus (of_int (x_attPct (export_row_tail present late total'))))
   \<and> x_attPct (export_row_tail present late total') = pct (present + late) total'"
  by (simp add: attendanceStatus_def export_row_tail_def Let_def yes_intervention_def pct_def)

section \<open>Frames and invariants of the store\<close>

lemma closeSession_online:
  "online st \<Longrightarrow> closeSession st sid =
     (Inr (), st\<lparr>tbl_sessions := map (close_row sid) (tbl_sessions st)\<rparr>)"
  by (simp add: closeSession_def mutation_def close_row_def[abs_def])

lemma close_row_closed: "ss_status r = ''closed'' \<Longrightarrow> close_row sid r = r"
  by (simp add: close_row_def)

lemma map_close_row_noop:
  "list_all (\<lambda>r. ss_status r = ''closed'') (filter (\<lambda>r. ss_id r = sid) rows)
     \<Longrightarrow> map (close_row sid) rows = rows"
  by (induction rows) (auto simp: close_row_def)

lemma recordScan_sessions [simp]: "tbl_sessions (snd (recordScan st p)) = tbl_sessions st"
  by (simp add: recordScan_def mutation_def Let_def split: jsnum.split)

lemma upsert_student_sessions [simp]:
  "tbl_sessions (snd (upsert_student st r)) = tbl_sessions st"
  by (simp add: upsert_student_def mutation_def split: option.split)

lemma upsert_enrolment_sessions [simp]:
  "tbl_sessions (snd (upsert_enrolment st e)) = tbl_sessions st"
  by (simp add: upsert_enrolment_def mutation_def)

lemma upsertStudentAndEnrol_unfold:
  "upsertStudentAndEnrol st a b c =
     (case upsert_student st (new_student a b) of
        (Inl se, st1) \<Rightarrow> (Inl se, st1)
      | (Inr u, st1) \<Rightarrow>
          (case upsert_enrolment st1 \<lparr>en_student_id = real_id st1 a, en_course_id = c\<rparr> of
             (Inl ee, st2) \<Rightarrow>
               if code ee \<noteq> Some ''23505'' then (Inl ee, st2)
               else (Inr \<lparr>stu_id = real_id st1 a, stu_student_no = a,
                          stu_surname_initials = b\<rparr>, st2)
           | (Inr u, st2) \<Rightarrow>
               (Inr \<lparr>stu_id = real_id st1 a, stu_student_no = a,
                     stu_surname_initials = b\<rparr>, st2)))"
  unfolding upsertStudentAndEnrol_def new_student_def real_id_def Let_def by (rule refl)

lemma upsertStudentAndEnrol_snd:
  "snd (upsertStudentAndEnrol st a b c) = snd (upsert_student st (new_student a b))
   \<or> (\<exists>e. snd (upsertStudentAndEnrol st a b c)
        = snd (upsert_enrolment (snd (upsert_student st (new_student a b))) e))"
proof -
  obtain r1 st1 where u: "upsert_student st (new_student a b) = (r1, st1)"
    by (cases "upsert_student st (new_student a b)")
  show ?thesis
  proof (cases r1)
    case (Inl e)
    then show ?thesis by (simp add: upsertStudentAndEnrol_unfold u)
  next
    case (Inr x)
    obtain r2 st2 where
      e: "upsert_enrolment st1 \<lparr>en_student_id = real_id st1 a, en_course_id = c\<rparr> = (r2, st2)"
      by (cases "upsert_enrolment st1 \<lparr>en_student_id = real_id st1 a, en_course_id = c\<rparr>")
    have "snd (upsertStudentAndEnrol st a b c) = st2"
      using Inr e by (cases r2) (simp_all add: upsertStudentAndEnrol_unfold u)
    moreover have "st2 = snd (upsert_enrolment (snd (upsert_student st (new_student a b)))
        \<lparr>en_student_id = real_id st1 a, en_course_id = c\<rparr>)"
      by (simp add: u e)
    ultimately show ?thesis by blast
  qed
qed

lemma upsertStudentAndEnrol_sessions [simp]:
  "tbl_sessions (snd (upsertStudentAndEnrol st a b c)) = tbl_sessions st"
  using upsertStudentAndEnrol_snd[of st a b c] by (elim disjE exE) simp_all

lemma createSession_sessions:
  "tbl_sessions (snd (createSession st p)) = tbl_sessions st
   \<or> tbl_sessions (snd (createSession st p)) = tbl_sessions st @ [p\<lparr>ss_status := ''active''\<rparr>]"
  by (simp add: createSession_def mutation_def Let_def)

lemma closeSession_sessions:
  "tbl_sessions (snd (closeSession st sid)) = tbl_sessions st
   \<or> tbl_sessions (snd (closeSession st sid)) = map (close_row sid) (tbl_sessions st)"
  by (simp add: closeSession_def mutation_def close_row_def[abs_def])

lemma closed_row_kept_step:
  assumes "r \<in> set (tbl_sessions st)" "ss_status r = ''closed''"
  shows "r \<in> set (tbl_sessions (apply_op x st))"
proof (cases x)
  case (CreateSession p)
  then show ?thesis using assms(1) createSession_sessions[of st p] by auto
next
  case (CloseSession sid)
  have "close_row sid r \<in> set (map (close_row sid) (tbl_sessions st))"
    using assms(1) by simp
  then have "r \<in> set (map (close_row sid) (tbl_sessions st))"
    using close_row_closed[OF assms(2)] by simp
  then show ?thesis using CloseSession assms(1) closeSession_sessions[of st sid] by auto
next
  case (RecordScan p)
  then show ?thesis using assms(1) by simp
next
  case (UpsertStudentAndEnrol a b c)
  then show ?thesis using assms(1) by simp
next
  case (Environment b t)
  then show ?thesis using assms(1) by simp
qed

lemma closed_row_kept:
  "r \<in> set (tbl_sessions st) \<Longrightarrow> ss_status r = ''closed''
     \<Longrightarrow> r \<in> set (tbl_sessions (run ops st))"
  unfolding run_def
  by (induction ops arbitrary: st) (simp_all add: closed_row_kept_step)

lemma closeSession_offline: "\<not> online st \<Longrightarrow> closeSession st sid = (Inl FetchError, st)"
  by (simp add: closeSession_def mutation_def)

lemma endSession_cases:
  "endSession a st = st \<or> (\<exists>sid. endSession a st = snd (closeSession st sid))"
  by (cases a) (auto simp: endSession_def)

lemma recordScan_scans:
  "tbl_scans (snd (recordScan st p)) = tbl_scans st
   \<or> (\<exists>r. tbl_scans (snd (recordScan st p)) = tbl_scans st @ [r]
          \<and> \<not> has_key scan_key (scan_key r) (tbl_scans st))"
  by (simp add: recordScan_def mutation_def Let_def split: jsnum.split)

lemma createSession_scans [simp]: "tbl_scans (snd (createSession st p)) = tbl_scans st"
  by (simp add: createSession_def mutation_def Let_def)

lemma closeSession_scans [simp]: "tbl_scans (snd (closeSession st sid)) = tbl_scans st"
  by (simp add: closeSession_def mutation_def)

lemma upsert_student_scans [simp]: "tbl_scans (snd (upsert_student st r)) = tbl_scans st"
  by (simp add: upsert_student_def mutation_def split: option.split)

lemma upsert_enrolment_scans [simp]: "tbl_scans (snd (upsert_enrolment st e)) = tbl_scans st"
  by (simp add: upsert_enrolment_def mutation_def)

lemma upsertStudentAndEnrol_scans [simp]:
  "tbl_scans (snd (upsertStudentAndEnrol st a b c)) = tbl_scans st"
  using upsertStudentAndEnrol_snd[of st a b c] by (elim disjE exE) simp_all

lemma scans_unique_step: "scans_unique st \<Longrightarrow> scans_unique (apply_op x st)"
proof (cases x)
  case (RecordScan p)
  assume u: "scans_unique st"
  from recordScan_scans[of st p] show ?thesis
  proof (elim disjE exE conjE)
    assume "tbl_scans (snd (recordScan st p)) = tbl_scans st"
    then show ?thesis using u RecordScan by (simp add: scans_unique_def)
  next
    fix r assume "tbl_scans (snd (recordScan st p)) = tbl_scans st @ [r]"
      "\<not> has_key scan_key (scan_key r) (tbl_scans st)"
    then show ?thesis using u RecordScan by (simp add: scans_unique_def has_key_def)
  qed
qed (simp_all add: scans_unique_def)

lemma scans_unique_run: "scans_unique st \<Longrightarrow> scans_unique (run ops st)"
  unfolding run_def by (induction ops arbitrary: st) (simp_all add: scans_unique_step)

lemma scans_unique_recordScan: "scans_unique st \<Longrightarrow> scans_unique (snd (recordScan st p))"
  using scans_unique_step[of st "RecordScan p"] by simp

lemma unique_scan:
  assumes "scans_unique st" "a \<in> set (tbl_scans st)" "b \<in> set (tbl_scans st)"
    and "scan_key a = scan_key b"
  shows "a = b"
  using assms unfolding scans_unique_def by (meson distinct_map inj_onD)

lemma createSession_students [simp]: "tbl_students (snd (createSession st p)) = tbl_students st"
  by (simp add: createSession_def mutation_def Let_def)

lemma closeSession_students [simp]: "tbl_students (snd (closeSession st sid)) = tbl_students st"
  by (simp add: closeSession_def mutation_def)

lemma recordScan_students [simp]: "tbl_students (snd (recordScan st p)) = tbl_students st"
  by (simp add: recordScan_def mutation_def Let_def split: jsnum.split)

lemma upsert_enrolment_students [simp]:
  "tbl_students (snd (upsert_enrolment st e)) = tbl_students st"
  by (simp add: upsert_enrolment_def mutation_def)

lemma upsert_student_ids:
  assumes "stu_id r = ''S_'' @ stu_student_no r" "student_ids_derived st"
  shows "student_ids_derived (snd (upsert_student st r))"
  using assms
  by (auto simp: upsert_student_def mutation_def student_ids_derived_def list_all_iff
      split: option.split)

lemma student_ids_derived_step:
  assumes "student_ids_derived st"
  shows "student_ids_derived (apply_op x st)"
proof (cases x)
  case (UpsertStudentAndEnrol a b c)
  have n: "stu_id (new_student a b) = ''S_'' @ stu_student_no (new_student a b)"
    by (simp add: new_student_def)
  have 1: "student_ids_derived (snd (upsert_student st (new_student a b)))"
    using n assms by (rule upsert_student_ids)
  then have 2: "student_ids_derived (snd (upsert_enrolment (snd (upsert_student st (new_student a b))) e))" for e
    by (simp add: student_ids_derived_def)
  show ?thesis
    using upsertStudentAndEnrol_snd[of st a b c] 1 2 UpsertStudentAndEnrol by auto
qed (use assms in \<open>simp_all add: student_ids_derived_def\<close>)

lemma student_ids_derived_run: "student_ids_derived st \<Longrightarrow> student_ids_derived (run ops st)"
  unfolding run_def by (induction ops arbitrary: st) (simp_all add: student_ids_derived_step)

lemma reachable_invariants:
  "scans_unique (run ops empty_store) \<and> student_ids_derived (run ops empty_store)"
proof -
  have "scans_unique empty_store" "student_ids_derived empty_store"
    by (simp_all add: empty_store_def scans_unique_def student_ids_derived_def)
  then show ?thesis by (simp add: scans_unique_run student_ids_derived_run)
qed

lemma has_key_iff: "has_key key k rows = (\<exists>r \<in> set rows. key r = k)"
  by (auto simp: has_key_def)

lemma find_Some_elem: "find P xs = Some x \<Longrightarrow> P x \<and> x \<in> set xs"
  by (induction xs) (auto split: if_splits)

subsection \<open>The sample run\<close>

lemmas js_eval = getScanStatus_def time_value_def js_arith_def js_le_def Math_round_def
  Math_max_def fl_def ilog2_def compute_bitlen rne_def round_half_up_def

lemmas store_eval = getSession_def getCourses_def getStudentsForCourse_def recordScan_def
  closeSession_def request_def mutation_def embed_scans_def has_key_def scan_key_def
  List.map_filter_def

lemmas view_eval = handleScan_def doLog_def load_session_def type_studentNo_def click_done_def
  initial_view_def trim_def is_space_def scan_failed_def code_def or_empty_def endSession_def

lemmas sample_eval = sample_store_def sample_session_row_def sample_Date_def sample_scan_def
  sample_first_scan_def

lemma sample_view_eq:
  "sample_view =
     \<lparr>v_session = Some (embed_scans sample_store (sample_session_row ''S1'' ''C1'' ''active'')),
      v_step = ''enter'', v_studentNo = ''20210001'', v_result = None, v_err = []\<rparr>"
  by (simp add: sample_view_def view_eval store_eval sample_eval)

lemma sample_after_first_eq:
  "sample_after_first =
     (sample_view\<lparr>v_result := Some (sample_first_scan, False), v_step := ''success''\<rparr>,
      sample_scanned)"
  by (simp add: sample_after_first_def sample_view_eq sample_scanned_def view_eval store_eval
      sample_eval js_eval Let_def)

lemma sample_closed_eq:
  "sample_closed = sample_store\<lparr>tbl_sessions := [sample_session_row ''S1'' ''C1'' ''closed'']\<rparr>"
  by (simp add: sample_closed_def view_eval store_eval sample_eval)

lemma sample_after_second_eq:
  "sample_after_second =
     (sample_view\<lparr>v_err := ''You have already scanned in for this session.''\<rparr>,
      sample_scanned\<lparr>next_scan_id := 3\<rparr>)"
  by (simp add: sample_after_second_def sample_after_first_eq sample_view_eq sample_scanned_def
      view_eval store_eval sample_eval js_eval Let_def)

section \<open>Closing a session\<close>

text \<open>
  C8.  When the request reaches the store, closing a session is no failure; it turns
  the status of the rows with that id to closed and changes nothing else in the sessions
  table, no scan and no other table; when the session is already closed, or there is
  none with that id, the store is left as it was; and a row closed this way is closed
  and stays in the table as it is through every later run of operations.
\<close>

theorem closeSession_frame:
  assumes "online st"
  shows "fst (closeSession st sid) = Inr ()
       \<and> tbl_sessions (snd (closeSession st sid)) = map (close_row sid) (tbl_sessions st)
       \<and> tbl_scans (snd (closeSession st sid)) = tbl_scans st
       \<and> (snd (closeSession st sid))\<lparr>tbl_sessions := tbl_sessions st\<rparr> = st
       \<and> (closed_or_absent sid st \<longrightarrow> snd (closeSession st sid) = st)
       \<and> (\<forall>r ops. r \<in> set (tbl_sessions (snd (closeSession st sid))) \<and> ss_id r = sid
             \<longrightarrow> ss_status r = ''closed''
               \<and> r \<in> set (tbl_sessions (run ops (snd (closeSession st sid)))))"
proof -
  define st' where "st' = st\<lparr>tbl_sessions := map (close_row sid) (tbl_sessions st)\<rparr>"
  have 1: "closeSession st sid = (Inr (), st')"
    unfolding st'_def using assms by (rule closeSession_online)
  have a: "fst (closeSession st sid) = Inr ()" by (simp add: 1)
  have b: "tbl_sessions (snd (closeSession st sid)) = map (close_row sid) (tbl_sessions st)"
    by (simp add: 1 st'_def)
  have c: "tbl_scans (snd (closeSession st sid)) = tbl_scans st" by (simp add: 1 st'_def)
  have d: "(snd (closeSession st sid))\<lparr>tbl_sessions := tbl_sessions st\<rparr> = st"
    by (simp add: 1 st'_def)
  have e: "snd (closeSession st sid) = st" if "closed_or_absent sid st"
  proof -
    have "map (close_row sid) (tbl_sessions st) = tbl_sessions st"
      using that unfolding closed_or_absent_def by (rule map_close_row_noop)
    then show ?thesis by (simp add: 1 st'_def)
  qed
  have f: "ss_status r = ''closed'' \<and> r \<in> set (tbl_sessions (run ops (snd (closeSession st sid))))"
    if "r \<in> set (tbl_sessions (snd (closeSession st sid)))" "ss_id r = sid" for r ops
  proof -
    from that(1) obtain r0 where "r = close_row sid r0" unfolding b by auto
    then have "ss_status r = ''closed''" using that(2) by (simp add: close_row_def split: if_splits)
    then show ?thesis using that(1) closed_row_kept by blast
  qed
  show ?thesis using a b c d e f by blast
qed

theorem closeSession_frame_witness:
  "online sample_store
   \<and> fst (closeSession sample_store ''S1'') = Inr ()
   \<and> map ss_status (tbl_sessions sample_store) = [''active'']
   \<and> map ss_status (tbl_sessions (snd (closeSession sample_store ''S1''))) = [''closed'']
   \<and> tbl_scans (snd (closeSession sample_scanned ''S1'')) = [sample_first_scan]
   \<and> closed_or_absent ''S9'' sample_store
   \<and> snd (closeSession sample_store ''S9'') = sample_store
   \<and> closed_or_absent ''S1'' sample_closed
   \<and> snd (closeSession sample_closed ''S1'') = sample_closed"
proof -
  have h: "online sample_store" "online sample_scanned" "online sample_closed"
    by (simp_all add: sample_store_def sample_scanned_def sample_closed_eq)
  have c: "closed_or_absent ''S9'' sample_store" "closed_or_absent ''S1'' sample_closed"
    by (simp_all add: closed_or_absent_def sample_closed_eq sample_eval)
  have t: "tbl_scans sample_scanned = [sample_first_scan]" by (simp add: sample_scanned_def)
  show ?thesis
    using h(1) c t closeSession_frame[OF h(1), of "''S1''"] closeSession_frame[OF h(1), of "''S9''"]
      closeSession_frame[OF h(2), of "''S1''"] closeSession_frame[OF h(3), of "''S1''"]
    by (simp add: sample_eval close_row_def)
qed

section \<open>Upserting a known student\<close>

lemma derived_id:
  "student_ids_derived st \<Longrightarrow> x \<in> set (tbl_students st)
     \<Longrightarrow> stu_id x = ''S_'' @ stu_student_no x"
  by (simp add: student_ids_derived_def list_all_iff)

lemma new_student_rename:
  assumes "stu_id x = ''S_'' @ stu_student_no x"
  shows "(if stu_student_no x = a then new_student a b else x) = rename a b x"
  using assms by (cases x) (simp add: new_student_def rename_def)

lemma upsert_student_existing:
  assumes on: "online st" and ids: "student_ids_derived st"
    and old: "old \<in> set (tbl_students st)" "stu_student_no old = a"
  shows "upsert_student st (new_student a b) =
           (Inr (), st\<lparr>tbl_students := map (rename a b) (tbl_students st)\<rparr>)"
proof -
  have "find (\<lambda>x. stu_student_no x = a) (tbl_students st) \<noteq> None"
    using old by (auto simp: find_None_iff)
  then obtain o' where f: "find (\<lambda>x. stu_student_no x = a) (tbl_students st) = Some o'"
    by blast
  then have o': "o' \<in> set (tbl_students st)" "stu_student_no o' = a"
    by (auto simp: find_Some_iff)
  have id: "stu_id o' = ''S_'' @ a" using derived_id[OF ids o'(1)] o'(2) by simp
  have m: "map (\<lambda>x. if stu_student_no x = a then new_student a b else x) (tbl_students st)
           = map (rename a b) (tbl_students st)"
    by (rule map_cong[OF refl]) (simp add: new_student_rename derived_id[OF ids])
  have n: "stu_id (new_student a b) = ''S_'' @ a" "stu_student_no (new_student a b) = a"
    by (simp_all add: new_student_def)
  show ?thesis
    unfolding upsert_student_def mutation_def n f using on id m by simp
qed

lemma rename_ids:
  "student_ids_derived st \<Longrightarrow>
     student_ids_derived (st\<lparr>tbl_students := map (rename a b) (tbl_students st)\<rparr>)"
  by (auto simp: student_ids_derived_def list_all_iff rename_def)

lemma real_id_derived:
  assumes "student_ids_derived st"
  shows "real_id st a = ''S_'' @ a"
proof (cases "select_student_id st a")
  case None
  then show ?thesis by (simp add: real_id_def)
next
  case (Some i)
  then obtain x where x: "filter (\<lambda>x. stu_student_no x = a) (tbl_students st) = [x]"
    and i: "i = stu_id x"
    by (auto simp: select_student_id_def split: if_splits list.splits)
  have "x \<in> set (filter (\<lambda>x. stu_student_no x = a) (tbl_students st))" by (simp add: x)
  then have "x \<in> set (tbl_students st)" "stu_student_no x = a" by simp_all
  then have "i = ''S_'' @ a" using derived_id[OF assms] i by simp
  then show ?thesis using Some by (simp add: real_id_def)
qed

text \<open>
  C10.  When a student with this student number exists (the store is online, its
  student ids are the ones this operation derives, and the course exists), the upsert
  overwrites the surname and initials of that row with the value
  supplied, returns and keeps the row's id, enrols that id in the course (once), and
  leaves every scan, with its name snapshot, as it was.
\<close>

theorem upsert_existing_student:
  assumes on: "online st" and ids: "student_ids_derived st"
    and old: "old \<in> set (tbl_students st)" "stu_student_no old = studentNo"
    and course: "has_key c_id courseId (tbl_courses st)"
  shows "fst (upsertStudentAndEnrol st studentNo surnameInitials courseId)
           = Inr \<lparr>stu_id = stu_id old, stu_student_no = studentNo,
                  stu_surname_initials = surnameInitials\<rparr>
       \<and> tbl_students (snd (upsertStudentAndEnrol st studentNo surnameInitials courseId))
           = map (rename studentNo surnameInitials) (tbl_students st)
       \<and> old\<lparr>stu_surname_initials := surnameInitials\<rparr>
           \<in> set (tbl_students (snd (upsertStudentAndEnrol st studentNo surnameInitials courseId)))
       \<and> tbl_scans (snd (upsertStudentAndEnrol st studentNo surnameInitials courseId))
           = tbl_scans st
       \<and> tbl_sessions (snd (upsertStudentAndEnrol st studentNo surnameInitials courseId))
           = tbl_sessions st
       \<and> tbl_enrolments (snd (upsertStudentAndEnrol st studentNo surnameInitials courseId))
           = (if has_key enrolment_key (stu_id old, courseId) (tbl_enrolments st)
              then tbl_enrolments st
              else tbl_enrolments st @ [\<lparr>en_student_id = stu_id old, en_course_id = courseId\<rparr>])
       \<and> has_key enrolment_key (stu_id old, courseId)
           (tbl_enrolments (snd (upsertStudentAndEnrol st studentNo surnameInitials courseId)))"
proof -
  define st1 where "st1 = st\<lparr>tbl_students := map (rename studentNo surnameInitials) (tbl_students st)\<rparr>"
  define e where "e = \<lparr>en_student_id = stu_id old, en_course_id = courseId\<rparr>"
  define st2 where "st2 = (if has_key enrolment_key (stu_id old, courseId) (tbl_enrolments st)
      then st1 else st1\<lparr>tbl_enrolments := tbl_enrolments st @ [e]\<rparr>)"
  have oid: "stu_id old = ''S_'' @ studentNo" using derived_id[OF ids old(1)] old(2) by simp
  have u1: "upsert_student st (new_student studentNo surnameInitials) = (Inr (), st1)"
    unfolding st1_def using on ids old by (rule upsert_student_existing)
  have ids1: "student_ids_derived st1" unfolding st1_def using ids by (rule rename_ids)
  have rid: "real_id st1 studentNo = stu_id old"
    using real_id_derived[OF ids1] oid by simp
  have on1: "online st1" using on by (simp add: st1_def)
  have ren: "rename studentNo surnameInitials old = old\<lparr>stu_surname_initials := surnameInitials\<rparr>"
    using old(2) by (simp add: rename_def)
  have mem: "old\<lparr>stu_surname_initials := surnameInitials\<rparr> \<in> set (tbl_students st1)"
    unfolding st1_def using old(1) ren by (simp add: image_iff) metis
  then have fk: "has_key stu_id (stu_id old) (tbl_students st1)"
    unfolding has_key_iff by (intro bexI[of _ "old\<lparr>stu_surname_initials := surnameInitials\<rparr>"]) simp_all
  have ck: "has_key c_id courseId (tbl_courses st1)" using course by (simp add: st1_def)
  have ek: "enrolment_key e = (stu_id old, courseId)" by (simp add: e_def enrolment_key_def)
  have u2: "upsert_enrolment st1 e = (Inr (), st2)"
    unfolding upsert_enrolment_def mutation_def ek using on1 fk ck
    by (simp add: st2_def st1_def e_def)
  have r: "upsertStudentAndEnrol st studentNo surnameInitials courseId =
       (Inr \<lparr>stu_id = stu_id old, stu_student_no = studentNo,
             stu_surname_initials = surnameInitials\<rparr>, st2)"
    using u2 by (simp add: upsertStudentAndEnrol_unfold u1 rid e_def)
  have k: "has_key enrolment_key (stu_id old, courseId) (tbl_enrolments st2)"
    by (simp add: st2_def st1_def has_key_def ek)
  show ?thesis unfolding r using mem k by (simp add: st2_def st1_def e_def)
qed

theorem upsert_existing_student_witness:
  "online sample_scanned \<and> student_ids_derived sample_scanned
   \<and> has_key c_id ''C1'' (tbl_courses sample_scanned)
   \<and> fst (upsertStudentAndEnrol sample_scanned ''20210001'' ''Khumalo T.'' ''C1'')
       = Inr \<lparr>stu_id = ''S_20210001'', stu_student_no = ''20210001'',
              stu_surname_initials = ''Khumalo T.''\<rparr>
   \<and> tbl_students (snd (upsertStudentAndEnrol sample_scanned ''20210001'' ''Khumalo T.'' ''C1''))
       = [\<lparr>stu_id = ''S_20210001'', stu_student_no = ''20210001'',
           stu_surname_initials = ''Khumalo T.''\<rparr>]
   \<and> map sc_surname_initials
        (tbl_scans (snd (upsertStudentAndEnrol sample_scanned ''20210001'' ''Khumalo T.'' ''C1'')))
       = [''Khumalo T.S.'']
   \<and> tbl_enrolments (snd (upsertStudentAndEnrol sample_scanned ''20210001'' ''Khumalo T.'' ''C1''))
       = [\<lparr>en_student_id = ''S_20210001'', en_course_id = ''C1''\<rparr>]"
proof -
  define old where "old = \<lparr>stu_id = ''S_20210001'', stu_student_no = ''20210001'',
                       stu_surname_initials = ''Khumalo T.S.''\<rparr>"
  have h: "online sample_scanned" "student_ids_derived sample_scanned"
    "old \<in> set (tbl_students sample_scanned)" "stu_student_no old = ''20210001''"
    "has_key c_id ''C1'' (tbl_courses sample_scanned)"
    by (simp_all add: sample_scanned_def sample_store_def student_ids_derived_def has_key_def
        old_def)
  show ?thesis
    using h(1,2,5) upsert_existing_student[OF h, of "''Khumalo T.''"]
    by (simp add: old_def sample_scanned_def sample_eval rename_def has_key_def
        enrolment_key_def)
qed

section \<open>Checking in twice\<close>

lemma handleScan_already:
  assumes "trim (v_studentNo v) = X" "X \<noteq> []" "v_session v = Some s"
    and "find (\<lambda>sc. sc_student_no sc = X) (or_empty (scans s)) = Some e"
  shows "handleScan Date now pos S v st =
           (v\<lparr>v_err := [], v_result := Some (e, True), v_step := ''already''\<rparr>, st)"
  using assms by (simp add: handleScan_def Let_def)

lemma handleScan_doLog:
  assumes "trim (v_studentNo v) = X" "X \<noteq> []" "v_session v = Some s"
    and "find (\<lambda>sc. sc_student_no sc = X) (or_empty (scans s)) = None"
  shows "handleScan Date now pos S v st =
           doLog Date now S X
             (case pos of None \<Rightarrow> (- 239045 / 10000, 294688 / 10000) | Some p \<Rightarrow> p)
             (v\<lparr>v_err := [], v_step := ''verifying''\<rparr>) st"
  using assms by (simp add: handleScan_def Let_def)

lemma recordScan_duplicate:
  assumes "online st" "i_minutes_late p = Num (of_int k)"
    and "has_key scan_key (i_session_id p, i_student_no p) (tbl_scans st)"
  shows "recordScan st p = (Inl (PostgrestError ''23505''), st\<lparr>next_scan_id := next_scan_id st + 1\<rparr>)"
  using assms by (simp add: recordScan_def mutation_def Let_def scan_key_def)

lemma minutesLate_integer:
  assumes "Date scanTime = Some s"
    and "Date (sessionDate @ ''T'' @ sessionStartTime @ '':00'') = Some t"
  shows "\<exists>k. minutesLate (getScanStatus Date scanTime sessionDate sessionStartTime) = Num (of_int k)"
proof -
  have "max 0 (of_int k) = (of_int (max 0 k) :: rat)" for k by (simp add: max_def)
  then show ?thesis unfolding getScanStatus_valid[OF assms] by (metis scan_status.select_convs(2))
qed

lemma doLog_duplicate:
  assumes on: "online st" and s: "v_session v = Some s"
    and d: "Date now = Some t1" "Date (ss_date s @ ''T'' @ ss_start_time s @ '':00'') = Some t0"
    and dup: "has_key scan_key (S, X) (tbl_scans st)"
  shows "doLog Date now S X pos v st =
           (v\<lparr>v_err := ''You have already scanned in for this session.'', v_step := ''enter''\<rparr>,
            st\<lparr>next_scan_id := next_scan_id st + 1\<rparr>)"
proof -
  obtain k where k: "minutesLate (getScanStatus Date now (ss_date s) (ss_start_time s)) = Num (of_int k)"
    using minutesLate_integer[OF d] by blast
  obtain xs where g: "getStudentsForCourse st (ss_course_id s) = Inr xs"
    using on by (simp add: getStudentsForCourse_def request_def)
  define p where "p = \<lparr>i_session_id = S, i_student_no = X,
      i_surname_initials = (case find (\<lambda>x. stu_student_no x = X) xs of None \<Rightarrow> X
         | Some x \<Rightarrow> if stu_surname_initials x = [] then X else stu_surname_initials x),
      i_status = status (getScanStatus Date now (ss_date s) (ss_start_time s)),
      i_minutes_late = minutesLate (getScanStatus Date now (ss_date s) (ss_start_time s)),
      i_lat = fst pos, i_lng = snd pos\<rparr>"
  have r: "recordScan st p = (Inl (PostgrestError ''23505''), st\<lparr>next_scan_id := next_scan_id st + 1\<rparr>)"
    by (rule recordScan_duplicate[OF on, of _ k]) (simp_all add: p_def k dup)
  show ?thesis
    using r by (simp add: doLog_def Let_def s g p_def scan_failed_def code_def)
qed

lemma getSession_single:
  assumes "online st" "filter (\<lambda>x. ss_id x = S) (tbl_sessions st) = [row]"
  shows "getSession st S = Inr (Some (embed_scans st row))"
  using assms by (simp add: getSession_def request_def)

lemma load_session_active:
  assumes "online st" "filter (\<lambda>x. ss_id x = S) (tbl_sessions st) = [row]"
    and "ss_status row = ''active''" "S \<noteq> []"
  shows "load_session (Some S) st v = v\<lparr>v_session := Some (embed_scans st row), v_step := ''enter''\<rparr>"
  using assms
  by (simp add: load_session_def getSession_single getCourses_def request_def embed_scans_def)

lemma find_unique_scan:
  assumes u: "scans_unique st" and r: "r \<in> set (tbl_scans st)"
    and k: "sc_session_id r = S" "sc_student_no r = X"
  shows "find (\<lambda>sc. sc_student_no sc = X) (filter (\<lambda>sc. sc_session_id sc = S) (tbl_scans st)) = Some r"
proof -
  have "find (\<lambda>sc. sc_student_no sc = X) (filter (\<lambda>sc. sc_session_id sc = S) (tbl_scans st)) \<noteq> None"
    using r k by (auto simp: find_None_iff)
  then obtain e where e: "find (\<lambda>sc. sc_student_no sc = X) (filter (\<lambda>sc. sc_session_id sc = S) (tbl_scans st)) = Some e"
    by blast
  then have "sc_student_no e = X" "e \<in> set (filter (\<lambda>sc. sc_session_id sc = S) (tbl_scans st))"
    by (auto dest: find_Some_elem)
  then have "e \<in> set (tbl_scans st)" "scan_key e = scan_key r"
    using k by (simp_all add: scan_key_def)
  then have "e = r" using unique_scan[OF u _ r] by blast
  with e show ?thesis by simp
qed

lemma handleScan_store:
  "snd (handleScan Date now pos S v st) = st
   \<or> (\<exists>p. snd (handleScan Date now pos S v st) = snd (recordScan st p))"
proof -
  have d: "snd (doLog Date now S X q w st) = st
      \<or> (\<exists>p. snd (doLog Date now S X q w st) = snd (recordScan st p))" for X q w
  proof (cases "v_session w")
    case None
    then show ?thesis by (simp add: doLog_def)
  next
    case (Some s)
    show ?thesis
    proof (cases "getStudentsForCourse st (ss_course_id s)")
      case (Inl e)
      then show ?thesis using Some by (simp add: doLog_def Let_def)
    next
      case (Inr xs)
      define p where "p = \<lparr>i_session_id = S, i_student_no = X,
        i_surname_initials = (case find (\<lambda>x. stu_student_no x = X) xs of None \<Rightarrow> X
           | Some x \<Rightarrow> if stu_surname_initials x = [] then X else stu_surname_initials x),
        i_status = status (getScanStatus Date now (ss_date s) (ss_start_time s)),
        i_minutes_late = minutesLate (getScanStatus Date now (ss_date s) (ss_start_time s)),
        i_lat = fst q, i_lng = snd q\<rparr>"
      obtain res st' where rs: "recordScan st p = (res, st')" by (cases "recordScan st p")
      have "snd (doLog Date now S X q w st) = st'"
        using rs by (cases res) (simp_all add: doLog_def Let_def Some Inr p_def)
      then have "snd (doLog Date now S X q w st) = snd (recordScan st p)" by (simp add: rs)
      then show ?thesis by blast
    qed
  qed
  show ?thesis
    unfolding handleScan_def Let_def
    using d by (auto split: option.splits)
qed

text \<open>
  C2, as the code has it.  Let the store hold a scan \<open>r\<close> of student \<open>X\<close> in session \<open>S\<close>.
  A check-in of \<open>X\<close> from a view that loaded the (open) session after that scan shows
  step \<open>already\<close> with \<open>r\<close> itself, tagged \<open>alreadyDone\<close>, and sends nothing to the store.
  A check-in from a view whose loaded session does not hold the scan reaches the store,
  whose uniqueness constraint rejects the insert; the view then shows the message
  \<open>You have already scanned in for this session.\<close> on the entry step, without a scan
  record, and the scans table is unchanged.  In both cases, through every run of
  operations, and in every store that a run builds from the empty one, there is at most
  one scan row for a session and a student.
\<close>

theorem second_check_in:
  assumes on: "online st" and u: "scans_unique st"
    and r: "r \<in> set (tbl_scans st)" "sc_session_id r = S" "sc_student_no r = X"
    and x: "trim input = X" "X \<noteq> []"
  shows "(filter (\<lambda>x. ss_id x = S) (tbl_sessions st) = [row] \<and> ss_status row = ''active'' \<and> S \<noteq> []
          \<longrightarrow> handleScan Date now pos S
                (type_studentNo input (load_session (Some S) st initial_view)) st
              = ((type_studentNo input (load_session (Some S) st initial_view))
                    \<lparr>v_err := [], v_result := Some (r, True), v_step := ''already''\<rparr>, st))
       \<and> (v_studentNo v = input \<and> v_session v = Some s
            \<and> find (\<lambda>sc. sc_student_no sc = X) (or_empty (scans s)) = None
            \<and> Date now = Some t1 \<and> Date (ss_date s @ ''T'' @ ss_start_time s @ '':00'') = Some t0
          \<longrightarrow> fst (handleScan Date now pos S v st)
               = v\<lparr>v_err := ''You have already scanned in for this session.'', v_step := ''enter''\<rparr>
             \<and> tbl_scans (snd (handleScan Date now pos S v st)) = tbl_scans st)
       \<and> scans_unique (snd (handleScan Date now pos S v st))
       \<and> scans_unique (run ops st)
       \<and> scans_unique (run ops empty_store)"
proof -
  have fresh: "handleScan Date now pos S
                (type_studentNo input (load_session (Some S) st initial_view)) st
              = ((type_studentNo input (load_session (Some S) st initial_view))
                    \<lparr>v_err := [], v_result := Some (r, True), v_step := ''already''\<rparr>, st)"
    if "filter (\<lambda>x. ss_id x = S) (tbl_sessions st) = [row]" "ss_status row = ''active''" "S \<noteq> []"
  proof -
    define w where "w = type_studentNo input (load_session (Some S) st initial_view)"
    have l: "load_session (Some S) st initial_view
             = initial_view\<lparr>v_session := Some (embed_scans st row), v_step := ''enter''\<rparr>"
      using on that by (rule load_session_active)
    have ws: "v_session w = Some (embed_scans st row)" "v_studentNo w = input"
      by (simp_all add: w_def l type_studentNo_def)
    have "ss_id row = S"
    proof -
      have "row \<in> set (filter (\<lambda>x. ss_id x = S) (tbl_sessions st))" by (simp add: that(1))
      then show ?thesis by simp
    qed
    then have "or_empty (scans (embed_scans st row))
               = filter (\<lambda>sc. sc_session_id sc = S) (tbl_scans st)"
      by (simp add: embed_scans_def or_empty_def)
    then have f: "find (\<lambda>sc. sc_student_no sc = X) (or_empty (scans (embed_scans st row))) = Some r"
      using find_unique_scan[OF u r] by simp
    have "handleScan Date now pos S w st =
            (w\<lparr>v_err := [], v_result := Some (r, True), v_step := ''already''\<rparr>, st)"
      by (rule handleScan_already[OF _ x(2) ws(1) f]) (simp add: ws x)
    then show ?thesis by (simp only: w_def)
  qed
  have stale: "fst (handleScan Date now pos S v st)
               = v\<lparr>v_err := ''You have already scanned in for this session.'', v_step := ''enter''\<rparr>
             \<and> tbl_scans (snd (handleScan Date now pos S v st)) = tbl_scans st"
    if "v_studentNo v = input" "v_session v = Some s"
      "find (\<lambda>sc. sc_student_no sc = X) (or_empty (scans s)) = None"
      "Date now = Some t1" "Date (ss_date s @ ''T'' @ ss_start_time s @ '':00'') = Some t0"
  proof -
    have t: "trim (v_studentNo v) = X" using that(1) x(1) by simp
    have dup: "has_key scan_key (S, X) (tbl_scans st)"
      unfolding has_key_iff using r by (intro bexI[of _ r]) (simp_all add: scan_key_def)
    have "handleScan Date now pos S v st =
           doLog Date now S X
             (case pos of None \<Rightarrow> (- 239045 / 10000, 294688 / 10000) | Some p \<Rightarrow> p)
             (v\<lparr>v_err := [], v_step := ''verifying''\<rparr>) st"
      using t x(2) that(2,3) by (rule handleScan_doLog)
    also have "\<dots> = ((v\<lparr>v_err := [], v_step := ''verifying''\<rparr>)
                  \<lparr>v_err := ''You have already scanned in for this session.'', v_step := ''enter''\<rparr>,
                st\<lparr>next_scan_id := next_scan_id st + 1\<rparr>)"
      by (rule doLog_duplicate[OF on _ that(4,5) dup]) (simp add: that(2))
    finally show ?thesis by simp
  qed
  have uh: "scans_unique (snd (handleScan Date now pos S v st))"
    using handleScan_store[of Date now pos S v st] u scans_unique_recordScan[OF u] by auto
  show ?thesis
  proof (intro conjI impI)
    assume "filter (\<lambda>x. ss_id x = S) (tbl_sessions st) = [row] \<and> ss_status row = ''active'' \<and> S \<noteq> []"
    then show "handleScan Date now pos S
                (type_studentNo input (load_session (Some S) st initial_view)) st
              = ((type_studentNo input (load_session (Some S) st initial_view))
                    \<lparr>v_err := [], v_result := Some (r, True), v_step := ''already''\<rparr>, st)"
      by (intro fresh) (erule conjunct1, erule conjunct2[THEN conjunct1], erule conjunct2[THEN conjunct2])
  next
    assume a: "v_studentNo v = input \<and> v_session v = Some s
            \<and> find (\<lambda>sc. sc_student_no sc = X) (or_empty (scans s)) = None
            \<and> Date now = Some t1 \<and> Date (ss_date s @ ''T'' @ ss_start_time s @ '':00'') = Some t0"
    note b = stale[OF a[THEN conjunct1] a[THEN conjunct2, THEN conjunct1]
        a[THEN conjunct2, THEN conjunct2, THEN conjunct1]
        a[THEN conjunct2, THEN conjunct2, THEN conjunct2, THEN conjunct1]
        a[THEN conjunct2, THEN conjunct2, THEN conjunct2, THEN conjunct2]]
    show "fst (handleScan Date now pos S v st)
               = v\<lparr>v_err := ''You have already scanned in for this session.'', v_step := ''enter''\<rparr>"
      by (rule b[THEN conjunct1])
    show "tbl_scans (snd (handleScan Date now pos S v st)) = tbl_scans st"
      by (rule b[THEN conjunct2])
  next
    show "scans_unique (snd (handleScan Date now pos S v st))" by (rule uh)
  next
    show "scans_unique (run ops st)" using u by (rule scans_unique_run)
  next
    show "scans_unique (run ops empty_store)" by (rule reachable_invariants[THEN conjunct1])
  qed
qed

theorem second_check_in_witness:
  "online sample_scanned \<and> scans_unique sample_scanned
   \<and> sample_first_scan \<in> set (tbl_scans sample_scanned)
   \<and> trim ''20210001'' = ''20210001''
   \<and> handleScan sample_Date ''2024-03-04T07:20:00.000Z'' None ''S1''
        (type_studentNo ''20210001'' (load_session (Some ''S1'') sample_scanned initial_view))
        sample_scanned
      = ((type_studentNo ''20210001'' (load_session (Some ''S1'') sample_scanned initial_view))
            \<lparr>v_err := [], v_result := Some (sample_first_scan, True), v_step := ''already''\<rparr>,
         sample_scanned)
   \<and> fst (handleScan sample_Date ''2024-03-04T07:20:00.000Z'' None ''S1'' sample_view sample_scanned)
      = sample_view\<lparr>v_err := ''You have already scanned in for this session.'', v_step := ''enter''\<rparr>
   \<and> tbl_scans (snd (handleScan sample_Date ''2024-03-04T07:20:00.000Z'' None ''S1''
         sample_view sample_scanned)) = [sample_first_scan]"
proof -
  have h: "online sample_scanned" "scans_unique sample_scanned"
    "sample_first_scan \<in> set (tbl_scans sample_scanned)"
    "sc_session_id sample_first_scan = ''S1''" "sc_student_no sample_first_scan = ''20210001''"
    "trim ''20210001'' = ''20210001''" "''20210001'' \<noteq> []"
    by (simp_all add: sample_scanned_def scans_unique_def sample_eval trim_def is_space_def
        scan_key_def)
  have fresh: "filter (\<lambda>x. ss_id x = ''S1'') (tbl_sessions sample_scanned)
                 = [sample_session_row ''S1'' ''C1'' ''active'']
               \<and> ss_status (sample_session_row ''S1'' ''C1'' ''active'') = ''active'' \<and> ''S1'' \<noteq> []"
    by (simp add: sample_scanned_def sample_eval)
  have stale: "v_studentNo sample_view = ''20210001''
      \<and> v_session sample_view
          = Some (embed_scans sample_store (sample_session_row ''S1'' ''C1'' ''active''))
      \<and> find (\<lambda>sc. sc_student_no sc = ''20210001'')
           (or_empty (scans (embed_scans sample_store (sample_session_row ''S1'' ''C1'' ''active''))))
          = None
      \<and> sample_Date ''2024-03-04T07:20:00.000Z'' = Some 1709536800000
      \<and> sample_Date (ss_date (embed_scans sample_store (sample_session_row ''S1'' ''C1'' ''active''))
            @ ''T'' @ ss_start_time (embed_scans sample_store (sample_session_row ''S1'' ''C1'' ''active''))
            @ '':00'') = Some 1709535600000"
    by (simp add: sample_view_eq embed_scans_def or_empty_def sample_eval)
  have t: "tbl_scans sample_scanned = [sample_first_scan]" by (simp add: sample_scanned_def)
  note w = second_check_in[OF h, of "sample_session_row ''S1'' ''C1'' ''active''" sample_Date
      "''2024-03-04T07:20:00.000Z''" None sample_view
      "embed_scans sample_store (sample_session_row ''S1'' ''C1'' ''active'')"
      1709536800000 1709535600000]
  show ?thesis using h(1,2,3,6) w fresh stale t by simp
qed

theorem repeated_check_in_counterexample:
  "v_step (fst sample_after_first) = ''success''
   \<and> v_result (fst sample_after_first) = Some (sample_first_scan, False)
   \<and> v_step (fst sample_after_second) = ''enter''
   \<and> v_result (fst sample_after_second) = None
   \<and> v_result (fst sample_after_second) \<noteq> Some (sample_first_scan, True)
   \<and> v_err (fst sample_after_second) = ''You have already scanned in for this session.''"
  by (simp add: sample_after_second_eq sample_after_first_eq sample_view_eq)

section \<open>Checking in without an active session\<close>

lemma load_session_no_active:
  assumes "no_active_session sid st"
  shows "v_step (load_session (Some sid) st v) = ''no_session''"
proof (cases "filter (\<lambda>r. ss_id r = sid) (tbl_sessions st)")
  case Nil
  then show ?thesis by (simp add: load_session_def getSession_def request_def)
next
  case (Cons r rs)
  then have "r \<in> set (filter (\<lambda>r. ss_id r = sid) (tbl_sessions st))" by simp
  then have r: "r \<in> set (tbl_sessions st)" "ss_id r = sid" by simp_all
  have "r \<notin> set (filter (\<lambda>r. ss_id r = sid \<and> ss_status r = ''active'') (tbl_sessions st))"
    using assms by (simp add: no_active_session_def)
  then have na: "ss_status r \<noteq> ''active''" using r by simp
  show ?thesis
  proof (cases rs)
    case Nil
    then show ?thesis using Cons na
      by (simp add: load_session_def getSession_def request_def embed_scans_def)
  next
    case (Cons r' rs')
    then show ?thesis using \<open>filter (\<lambda>r. ss_id r = sid) (tbl_sessions st) = r # rs\<close>
      by (simp add: load_session_def getSession_def request_def)
  qed
qed

lemma load_session_no_id: "v_step (load_session None st v) = ''no_session''"
  by (simp add: load_session_def)

lemma check_in_after_delete:
  "v_err (fst (handleScan sample_Date ''2024-03-04T07:14:00.000Z'' None ''S1'' sample_view
        (sample_store\<lparr>tbl_sessions := []\<rparr>))) = ''Failed to record. Try again.''"
  by (simp add: sample_view_eq view_eval store_eval sample_eval js_eval Let_def)

text \<open>
  C5 at a failing input.  The view is opened while session S1 is active, the lecturer
  then ends the session, and the student submits the number: the scan is recorded
  against the closed session and the view shows \<open>success\<close>, where the claim asks for
  the \<open>no_session\<close> outcome (which a view opened after the close does show).
\<close>

theorem check_in_after_close:
  "v_step sample_view = ''enter''
   \<and> map ss_status (tbl_sessions sample_closed) = [''closed'']
   \<and> no_active_session ''S1'' sample_closed
   \<and> v_step (fst sample_scan_after_close) = ''success''
   \<and> v_step (fst sample_scan_after_close) \<noteq> ''no_session''
   \<and> v_result (fst sample_scan_after_close) = Some (sample_first_scan, False)
   \<and> tbl_scans (snd sample_scan_after_close) = [sample_first_scan]
   \<and> v_step (load_session (Some ''S1'') sample_closed initial_view) = ''no_session''"
  by (simp add: sample_scan_after_close_def sample_closed_eq sample_view_eq no_active_session_def
      view_eval store_eval sample_eval js_eval Let_def)

section \<open>Reading a session\<close>

lemma getScansForSession_sorted:
  assumes "online st"
  shows "\<exists>xs. getScansForSession st sid = Inr xs
          \<and> sorted (rev (map sc_scanned_at xs))
          \<and> mset xs = mset (filter (\<lambda>sc. sc_session_id sc = sid) (tbl_scans st))"
  using assms by (simp add: getScansForSession_def request_def rev_map)

lemma getSession_all_scans:
  assumes "online st" "filter (\<lambda>x. ss_id x = sid) (tbl_sessions st) = [row]"
  shows "\<exists>s. getSession st sid = Inr (Some s) \<and> ss_id s = sid \<and> ss_status s = ss_status row
          \<and> scans s = Some (filter (\<lambda>sc. sc_session_id sc = sid) (tbl_scans st))"
proof -
  have "row \<in> set (filter (\<lambda>x. ss_id x = sid) (tbl_sessions st))" by (simp add: assms(2))
  then have "ss_id row = sid" by simp
  then show ?thesis using assms by (simp add: getSession_single embed_scans_def)
qed

text \<open>
  C7 at a failing input.  For session S1 with two scans, \<open>getSession\<close> returns the
  session with both scans in the order of the table, the older one first;
  \<open>getScansForSession\<close>, which asks for the descending order, returns the newer one
  first (but not the session).
\<close>

theorem getSession_scans_oldest_first:
  "getSession sample_two_scans ''S1''
     = Inr (Some (embed_scans sample_two_scans (sample_session_row ''S1'' ''C1'' ''active'')))
   \<and> map sc_scanned_at
        (or_empty (scans (embed_scans sample_two_scans (sample_session_row ''S1'' ''C1'' ''active''))))
     = [1709535900000, 1709536440000]
   \<and> map_sum id (map sc_scanned_at) (getScansForSession sample_two_scans ''S1'')
     = Inr [1709536440000, 1709535900000]"
  by (simp add: sample_two_scans_def getScansForSession_def store_eval sample_eval or_empty_def)

end
